theory Spec2Isabelle
  imports Complex_Main "HOL-Library.AList" "HOL-Library.Sublist"
begin

section \<open>Errors\<close>

text \<open>
  The exceptions the Python code can raise, as values. A result is \<open>error + 'a\<close>,
  with \<open>Inl\<close> the exception. \<open>ModelError\<close> stands for whatever the fitted regressor
  raises from \<open>predict\<close>.
\<close>

datatype error =
    KeyError string
  | ValueError
  | IndexError
  | ModelError

section \<open>Summary statistics of one distribution (NumPy reductions)\<close>

text \<open>
  Floats are modelled as reals. The reductions below are only called on a non-empty
  distribution: \<open>_summarise_predictions\<close> raises on an empty one (see there).
\<close>

definition mean_np :: "real list \<Rightarrow> real" where
  "mean_np xs = sum_list xs / real (length xs)"

text \<open>\<open>distribution.std(ddof=0)\<close>: the population standard deviation.\<close>

definition std_np :: "real list \<Rightarrow> real" where
  "std_np xs = sqrt (mean_np (map (\<lambda>x. (x - mean_np xs) ^ 2) xs))"

text \<open>
  \<open>np.percentile(a, q)\<close> with the default method (linear interpolation): on the sorted
  data the virtual index is \<open>(n - 1) * q / 100\<close>, the neighbours are its floor and the
  next index (kept inside the array), and the result interpolates between them.
\<close>

definition lerp_at :: "real list \<Rightarrow> real \<Rightarrow> real" where
  "lerp_at s v =
     (let lo = nat \<lfloor>v\<rfloor>;
          hi = min (lo + 1) (length s - 1);
          g = v - real lo
      in s ! lo + (s ! hi - s ! lo) * g)"

definition percentile_np :: "real list \<Rightarrow> real \<Rightarrow> real" where
  "percentile_np xs q = lerp_at (sort xs) (real (length xs - 1) * q / 100)"

text \<open>
  \<open>np.median\<close>: the middle element of the sorted data, or the mean of the two middle
  elements when the length is even.
\<close>

definition median_np :: "real list \<Rightarrow> real" where
  "median_np xs =
     (let s = sort xs; n = length xs
      in if n mod 2 = 1 then s ! (n div 2)
         else (s ! (n div 2 - 1) + s ! (n div 2)) / 2)"

definition min_np :: "real list \<Rightarrow> real" where
  "min_np xs = fold min (tl xs) (hd xs)"

definition max_np :: "real list \<Rightarrow> real" where
  "max_np xs = fold max (tl xs) (hd xs)"

text \<open>\<open>(distribution <= k).mean()\<close>: the fraction of entries that are at most \<open>k\<close>.\<close>

definition frac_le :: "real list \<Rightarrow> real \<Rightarrow> real" where
  "frac_le xs k = real (length (filter (\<lambda>x. x \<le> k) xs)) / real (length xs)"

section \<open>The accumulator and \<open>_summarise_predictions\<close>\<close>

text \<open>
  The accumulator \<open>predictions\<close> is a two-dimensional array of shape
  \<open>(n_simulations, n_entities)\<close>: its rows are the draws. The number of columns is kept
  beside the rows, since an array without rows still has its second dimension.
\<close>

record ndarray2 =
  ncols :: nat
  rows :: "real list list"

text \<open>\<open>predictions[:, idx]\<close>: IndexError when the array has no such column.\<close>

definition array_column :: "ndarray2 \<Rightarrow> nat \<Rightarrow> error + real list" where
  "array_column p idx =
     (if idx < ncols p then Inr (map (\<lambda>r. r ! idx) (rows p)) else Inl IndexError)"

type_synonym stats = "(string \<times> real) list"

text \<open>
  The dictionary literal of the loop body, in the order the source writes its keys.
  With no draw at all, \<open>mean\<close>, \<open>std\<close> and \<open>np.median\<close> give NaN with a warning and
  \<open>distribution.min()\<close> then raises ValueError (a reduction of a zero-size array),
  so the literal is never built.
\<close>

definition driver_stats :: "real list \<Rightarrow> error + stats" where
  "driver_stats distribution =
     (if distribution = [] then Inl ValueError
      else Inr
        [(''mean'', mean_np distribution),
         (''std'', std_np distribution),
         (''median'', median_np distribution),
         (''min'', min_np distribution),
         (''max'', max_np distribution),
         (''percentile_5'', percentile_np distribution 5),
         (''percentile_95'', percentile_np distribution 95),
         (''top3_probability'', frac_le distribution 3),
         (''top5_probability'', frac_le distribution 5)])"

text \<open>
  The loop \<open>for idx, driver in enumerate(driver_list)\<close>. The result dictionary is an
  association list in insertion order; assigning to a name that is already there
  replaces its value in place, as a Python dict does.
\<close>

fun summarise_loop ::
  "ndarray2 \<Rightarrow> nat \<Rightarrow> string list \<Rightarrow> (string \<times> stats) list \<Rightarrow> error + (string \<times> stats) list"
where
  "summarise_loop p idx [] acc = Inr acc"
| "summarise_loop p idx (driver # ds) acc =
     (case array_column p idx of
        Inl e \<Rightarrow> Inl e
      | Inr distribution \<Rightarrow>
          (case driver_stats distribution of
             Inl e \<Rightarrow> Inl e
           | Inr st \<Rightarrow> summarise_loop p (Suc idx) ds (AList.update driver st acc)))"

definition summarise_predictions ::
  "ndarray2 \<Rightarrow> string list \<Rightarrow> error + (string \<times> stats) list" where
  "summarise_predictions predictions drivers = summarise_loop predictions 0 drivers []"

section \<open>Data frames\<close>

text \<open>
  A pandas DataFrame, column by column: the number of rows and the columns in order,
  each column holding one value per row. Column names are taken to be distinct, as
  the feature catalogue's are.
\<close>

record 'a frame =
  nrows :: nat
  cols :: "(string \<times> 'a list) list"

text \<open>\<open>frame[column]\<close>: KeyError when there is no such column.\<close>

definition get_col :: "'a frame \<Rightarrow> string \<Rightarrow> error + 'a list" where
  "get_col fr c = (case map_of (cols fr) c of None \<Rightarrow> Inl (KeyError c) | Some v \<Rightarrow> Inr v)"

text \<open>\<open>frame[column] = values\<close>: replaces the column in place (or appends a new one).\<close>

definition set_col :: "string \<Rightarrow> 'a list \<Rightarrow> 'a frame \<Rightarrow> 'a frame" where
  "set_col c v fr = fr\<lparr>cols := AList.update c v (cols fr)\<rparr>"

text \<open>
  \<open>frame[names]\<close> and \<open>frame.loc[:, names]\<close>: the named columns in the order asked,
  KeyError at a name that is not a column.
\<close>

fun select_columns :: "'a frame \<Rightarrow> string list \<Rightarrow> error + (string \<times> 'a list) list" where
  "select_columns fr [] = Inr []"
| "select_columns fr (c # cs) =
     (case map_of (cols fr) c of
        None \<Rightarrow> Inl (KeyError c)
      | Some v \<Rightarrow>
          (case select_columns fr cs of
             Inl e \<Rightarrow> Inl e
           | Inr rest \<Rightarrow> Inr ((c, v) # rest)))"

definition getitem_columns :: "'a frame \<Rightarrow> string list \<Rightarrow> error + 'a frame" where
  "getitem_columns fr names =
     (case select_columns fr names of
        Inl e \<Rightarrow> Inl e
      | Inr sel \<Rightarrow> Inr \<lparr>nrows = nrows fr, cols = sel\<rparr>)"

section \<open>The random generator\<close>

text \<open>
  NumPy's generator is a library object: it is a parameter of the model. A generator
  is given by the two samplers the code uses, each taking the generator state and
  returning one sample with the next state. A call with \<open>size=n\<close> takes \<open>n\<close> samples
  in sequence.
\<close>

record 'g generator =
  normal_sample :: "real \<Rightarrow> real \<Rightarrow> 'g \<Rightarrow> real \<times> 'g"
  integer_sample :: "int \<Rightarrow> int \<Rightarrow> 'g \<Rightarrow> int \<times> 'g"

fun draw_n :: "('g \<Rightarrow> 'a \<times> 'g) \<Rightarrow> nat \<Rightarrow> 'g \<Rightarrow> 'a list \<times> 'g" where
  "draw_n sample 0 g = ([], g)"
| "draw_n sample (Suc n) g =
     (case sample g of (x, g1) \<Rightarrow>
        (case draw_n sample n g1 of (xs, g2) \<Rightarrow> (x # xs, g2)))"

definition rng_normal :: "'g generator \<Rightarrow> real \<Rightarrow> real \<Rightarrow> nat \<Rightarrow> 'g \<Rightarrow> real list \<times> 'g" where
  "rng_normal ops loc scale n g = draw_n (normal_sample ops loc scale) n g"

definition rng_integers :: "'g generator \<Rightarrow> int \<Rightarrow> int \<Rightarrow> nat \<Rightarrow> 'g \<Rightarrow> int list \<times> 'g" where
  "rng_integers ops low high n g = draw_n (integer_sample ops low high) n g"

section \<open>The Monte Carlo simulator\<close>

record mc_config =
  n_simulations :: int
  driver_form_sigma :: real
  weather_sigma :: real
  strategy_delta :: real

text \<open>
  The fields of \<open>self\<close> that \<open>run\<close> and \<open>_perturb_features\<close> read. The fitted
  regressor is opaque: \<open>model_predict\<close> is its \<open>predict\<close>, which may raise. The state
  of \<open>self._rng\<close> is passed to every function and returned by it.
\<close>

record 'g simulator =
  model_predict :: "real frame \<Rightarrow> error + real list"
  feature_columns :: "string list"
  config :: mc_config
  rng_ops :: "'g generator"

text \<open>Python's \<open>token in col\<close> on strings: \<open>token\<close> occurs in \<open>col\<close> as a substring.\<close>

fun str_in :: "string \<Rightarrow> string \<Rightarrow> bool" where
  "str_in token [] = (token = [])"
| "str_in token (c # cs) = (prefix token (c # cs) \<or> str_in token cs)"

definition form_cols :: "string list \<Rightarrow> string list" where
  "form_cols fcs = filter (\<lambda>col. str_in ''pos'' col \<or> str_in ''grid'' col) fcs"

definition weather_cols :: "string list \<Rightarrow> string list" where
  "weather_cols fcs =
     filter (\<lambda>col. list_ex (\<lambda>token. str_in token col) [''rain'', ''temp'', ''wind'']) fcs"

definition strategy_cols :: "string list \<Rightarrow> string list" where
  "strategy_cols fcs =
     filter (\<lambda>col. list_ex (\<lambda>token. str_in token col) [''pit'', ''fuel'', ''compound'']) fcs"

text \<open>A column times \<open>1 + noise\<close>, row by row; a column plus \<open>delta\<close>, row by row.\<close>

definition scale_rows :: "real list \<Rightarrow> real list \<Rightarrow> real list" where
  "scale_rows noise v = map2 (\<lambda>x e. x * (1 + e)) v noise"

definition shift_rows :: "real list \<Rightarrow> real list \<Rightarrow> real list" where
  "shift_rows delta v = map2 (\<lambda>x d. x + d) v delta"

text \<open>
  The form block: one noise vector for the frame's rows, shared by all form columns
  (\<open>noise[:, None]\<close> broadcasts along the columns). The noise is drawn before the
  columns are read.
\<close>

definition perturb_form ::
  "'g simulator \<Rightarrow> real frame \<Rightarrow> 'g \<Rightarrow> (error + real frame) \<times> 'g" where
  "perturb_form sim fr g =
     (let fc = form_cols (feature_columns sim) in
      if fc \<noteq> [] then
        (case rng_normal (rng_ops sim) 0 (driver_form_sigma (config sim)) (nrows fr) g of
           (noise, g1) \<Rightarrow>
             (case select_columns fr fc of
                Inl e \<Rightarrow> (Inl e, g1)
              | Inr sel \<Rightarrow>
                  (Inr (fold (\<lambda>(c, v). set_col c (scale_rows noise v)) sel fr), g1)))
      else (Inr fr, g))"

text \<open>The weather loop: a fresh noise vector for every weather column.\<close>

fun perturb_weather ::
  "'g simulator \<Rightarrow> string list \<Rightarrow> real frame \<Rightarrow> 'g \<Rightarrow> (error + real frame) \<times> 'g" where
  "perturb_weather sim [] fr g = (Inr fr, g)"
| "perturb_weather sim (column # cs) fr g =
     (case rng_normal (rng_ops sim) 0 (weather_sigma (config sim)) (nrows fr) g of
        (noise, g1) \<Rightarrow>
          (case get_col fr column of
             Inl e \<Rightarrow> (Inl e, g1)
           | Inr v \<Rightarrow> perturb_weather sim cs (set_col column (scale_rows noise v) fr) g1))"

text \<open>
  The strategy loop: for every strategy column, integers drawn from \<open>{-1, 0, 1}\<close>
  (\<open>integers(-1, 2)\<close> excludes the upper end), times \<open>strategy_delta\<close>, are added.
\<close>

fun perturb_strategy ::
  "'g simulator \<Rightarrow> string list \<Rightarrow> real frame \<Rightarrow> 'g \<Rightarrow> (error + real frame) \<times> 'g" where
  "perturb_strategy sim [] fr g = (Inr fr, g)"
| "perturb_strategy sim (column # cs) fr g =
     (case rng_integers (rng_ops sim) (- 1) 2 (nrows fr) g of
        (steps, g1) \<Rightarrow>
          (let delta = map (\<lambda>k. real_of_int k * strategy_delta (config sim)) steps in
           case get_col fr column of
             Inl e \<Rightarrow> (Inl e, g1)
           | Inr v \<Rightarrow> perturb_strategy sim cs (set_col column (shift_rows delta v) fr) g1))"

definition perturb_features ::
  "'g simulator \<Rightarrow> real frame \<Rightarrow> 'g \<Rightarrow> (error + real frame) \<times> 'g" where
  "perturb_features sim fr g =
     (case perturb_form sim fr g of
        (Inl e, g1) \<Rightarrow> (Inl e, g1)
      | (Inr fr1, g1) \<Rightarrow>
          (case perturb_weather sim (weather_cols (feature_columns sim)) fr1 g1 of
             (Inl e, g2) \<Rightarrow> (Inl e, g2)
           | (Inr fr2, g2) \<Rightarrow>
               perturb_strategy sim (strategy_cols (feature_columns sim)) fr2 g2))"

text \<open>\<open>np.clip(x, 1.0, 20.0)\<close>, element by element.\<close>

definition clip :: "real \<Rightarrow> real" where
  "clip x = min (max x 1) 20"

text \<open>
  \<open>predictions[sim_index] = values\<close>: the values fill the row when there is one per
  column; a single value is broadcast; any other length is a ValueError.
\<close>

definition assign_row :: "nat \<Rightarrow> real list \<Rightarrow> error + real list" where
  "assign_row n values =
     (if length values = n then Inr values
      else if length values = 1 then Inr (replicate n (hd values))
      else Inl ValueError)"

text \<open>
  The loop \<open>for sim_index in range(n_sims)\<close>, returning the rows it has filled, the
  first draw first. An exception of \<open>predict\<close> or of the assignment ends the run.
\<close>

fun simulate_draws ::
  "'g simulator \<Rightarrow> real frame \<Rightarrow> nat \<Rightarrow> 'g \<Rightarrow> (error + real list list) \<times> 'g" where
  "simulate_draws sim feature_matrix 0 g = (Inr [], g)"
| "simulate_draws sim feature_matrix (Suc k) g =
     (case perturb_features sim feature_matrix g of
        (Inl e, g1) \<Rightarrow> (Inl e, g1)
      | (Inr perturbed, g1) \<Rightarrow>
          (case model_predict sim perturbed of
             Inl e \<Rightarrow> (Inl e, g1)
           | Inr raw \<Rightarrow>
               (case assign_row (nrows feature_matrix) (map clip raw) of
                  Inl e \<Rightarrow> (Inl e, g1)
                | Inr row \<Rightarrow>
                    (case simulate_draws sim feature_matrix k g1 of
                       (Inl e, g2) \<Rightarrow> (Inl e, g2)
                     | (Inr rest, g2) \<Rightarrow> (Inr (row # rest), g2)))))"

text \<open>
  \<open>n_simulations or self.config.n_simulations\<close>: the argument unless it is falsy,
  that is \<open>None\<close> or \<open>0\<close>.
\<close>

definition resolve_n_sims :: "mc_config \<Rightarrow> int option \<Rightarrow> int" where
  "resolve_n_sims cfg n_arg =
     (case n_arg of
        None \<Rightarrow> n_simulations cfg
      | Some n \<Rightarrow> if n = 0 then n_simulations cfg else n)"

text \<open>
  \<open>run\<close> up to its last line: the filled accumulator. \<open>np.zeros\<close> raises ValueError
  on a negative dimension, after the feature columns have been selected.
\<close>

definition run_predictions ::
  "'g simulator \<Rightarrow> real frame \<Rightarrow> int option \<Rightarrow> 'g \<Rightarrow> (error + ndarray2) \<times> 'g" where
  "run_predictions sim features n_arg g =
     (let n_sims = resolve_n_sims (config sim) n_arg in
      case getitem_columns features (feature_columns sim) of
        Inl e \<Rightarrow> (Inl e, g)
      | Inr feature_matrix \<Rightarrow>
          if n_sims < 0 then (Inl ValueError, g)
          else
            (case simulate_draws sim feature_matrix (nat n_sims) g of
               (Inl e, g') \<Rightarrow> (Inl e, g')
             | (Inr rs, g') \<Rightarrow> (Inr \<lparr>ncols = nrows feature_matrix, rows = rs\<rparr>, g')))"

definition run ::
  "'g simulator \<Rightarrow> real frame \<Rightarrow> string list \<Rightarrow> int option \<Rightarrow> 'g
     \<Rightarrow> (error + (string \<times> stats) list) \<times> 'g" where
  "run sim features driver_names n_arg g =
     (case run_predictions sim features n_arg g of
        (Inl e, g') \<Rightarrow> (Inl e, g')
      | (Inr predictions, g') \<Rightarrow> (summarise_predictions predictions driver_names, g'))"

section \<open>A generator that replays given samples\<close>

text \<open>
  For running the model on concrete inputs: the state holds the standard normal
  deviates and the raw integers still to be handed out (zero and the lower bound
  once they run out).
\<close>

definition replay :: "(real list \<times> int list) generator" where
  "replay =
     \<lparr>normal_sample = (\<lambda>loc scale (zs, ks).
        (case zs of [] \<Rightarrow> (loc, (zs, ks)) | z # zs' \<Rightarrow> (loc + scale * z, (zs', ks)))),
      integer_sample = (\<lambda>low high (zs, ks).
        (case ks of [] \<Rightarrow> (low, (zs, ks)) | k # ks' \<Rightarrow> (low + k mod (high - low), (zs, ks'))))\<rparr>"

section \<open>\<open>train_model\<close>: imputation and the train/holdout split\<close>

text \<open>
  A feature cell is \<open>None\<close> where the table has a missing value (NaN).
  \<open>frame.mean()\<close> skips the missing cells of a column; a column without any present
  cell has a missing mean.
\<close>

definition present :: "real option list \<Rightarrow> real list" where
  "present v = concat (map (\<lambda>x. case x of None \<Rightarrow> [] | Some y \<Rightarrow> [y]) v)"

definition col_mean :: "real option list \<Rightarrow> real option" where
  "col_mean v =
     (if present v = [] then None
      else Some (sum_list (present v) / real (length (present v))))"

text \<open>
  \<open>frame.fillna(frame.mean())\<close>: every missing cell takes the mean of its own
  column (and stays missing when that mean is missing).
\<close>

definition fillna :: "real option \<Rightarrow> real option list \<Rightarrow> real option list" where
  "fillna m v = map (\<lambda>x. case x of None \<Rightarrow> m | Some y \<Rightarrow> Some y) v"

definition fillna_mean :: "real option frame \<Rightarrow> real option frame" where
  "fillna_mean fr = fr\<lparr>cols := map (\<lambda>(c, v). (c, fillna (col_mean v) v)) (cols fr)\<rparr>"

text \<open>The rows of a frame at the given positions, in that order.\<close>

definition take_rows :: "nat list \<Rightarrow> 'a frame \<Rightarrow> 'a frame" where
  "take_rows idx fr =
     \<lparr>nrows = length idx, cols = map (\<lambda>(c, v). (c, map (\<lambda>i. v ! i) idx)) (cols fr)\<rparr>"

text \<open>
  scikit-learn's \<open>train_test_split(X, y, test_size=0.2, random_state=42)\<close>. The
  shuffle of the seeded generator is a parameter: \<open>permutation n\<close> is the order it
  gives to the row positions \<open>0..n-1\<close>. The holdout fold is the first
  \<open>ceil(0.2 * n)\<close> positions of it, the training fold the rest. Arrays of different
  lengths and an empty training fold are a ValueError.
\<close>

definition n_test_of :: "nat \<Rightarrow> nat" where
  "n_test_of n = nat \<lceil>(2 / 10) * real n\<rceil>"

definition test_positions :: "(nat \<Rightarrow> nat list) \<Rightarrow> nat \<Rightarrow> nat list" where
  "test_positions permutation n = take (n_test_of n) (permutation n)"

definition train_positions :: "(nat \<Rightarrow> nat list) \<Rightarrow> nat \<Rightarrow> nat list" where
  "train_positions permutation n =
     take (n - n_test_of n) (drop (n_test_of n) (permutation n))"

definition train_test_split ::
  "(nat \<Rightarrow> nat list) \<Rightarrow> 'a frame \<Rightarrow> 'b list
     \<Rightarrow> error + ('a frame \<times> 'a frame \<times> 'b list \<times> 'b list)" where
  "train_test_split permutation X y =
     (let n = nrows X;
          n_train = n - n_test_of n
      in if length y \<noteq> n then Inl ValueError
         else if n_train = 0 then Inl ValueError
         else
           (let test = test_positions permutation n;
                train = train_positions permutation n
            in Inr (take_rows train X, take_rows test X,
                    map (\<lambda>i. y ! i) train, map (\<lambda>i. y ! i) test)))"

text \<open>
  \<open>train_model\<close> down to the call \<open>model.fit(X_train, y_train)\<close>: the data the
  regressor is fitted on. The imputation comes before the split.
\<close>

definition train_model_fit_input ::
  "(nat \<Rightarrow> nat list) \<Rightarrow> real option frame \<Rightarrow> 'b list \<Rightarrow> string list
     \<Rightarrow> error + (real option frame \<times> 'b list)" where
  "train_model_fit_input permutation features target fcs =
     (case getitem_columns features fcs of
        Inl e \<Rightarrow> Inl e
      | Inr selected \<Rightarrow>
          (let X = fillna_mean selected in
           case train_test_split permutation X target of
             Inl e \<Rightarrow> Inl e
           | Inr (X_train, X_test, y_train, y_test) \<Rightarrow> Inr (X_train, y_train)))"

text \<open>
  The reading of the specification, for comparison: the mean of a column over the
  rows of the training fold only.
\<close>

definition train_fold_mean :: "nat list \<Rightarrow> real option list \<Rightarrow> real option" where
  "train_fold_mean train v = col_mean (map (\<lambda>i. v ! i) train)"

section \<open>The scenario transform\<close>

text \<open>
  Modelled from the spec: \<open>regulation_transform.py\<close> (the constant
  \<open>REGULATION_MULTIPLIERS\<close> and \<open>apply_2026_regulations\<close>) is not among the
  sources. Section 4.1 of the specification: every listed column is replaced by its
  value times the multiplier, all other columns pass through unchanged, and a listed
  column that the input lacks is a missing-feature error. The multiplier table is an
  argument; \<open>future_multipliers\<close> is the table of the future scenario.
\<close>

fun scenario_transform :: "(string \<times> real) list \<Rightarrow> real frame \<Rightarrow> error + real frame" where
  "scenario_transform [] fr = Inr fr"
| "scenario_transform ((c, m) # ms) fr =
     (case get_col fr c of
        Inl e \<Rightarrow> Inl e
      | Inr v \<Rightarrow> scenario_transform ms (set_col c (map (\<lambda>x. x * m) v) fr))"

definition future_multipliers :: "(string \<times> real) list" where
  "future_multipliers =
     [(''power_ratio'', 333 / 100),
      (''aero_coeff'', 70 / 100),
      (''weight_ratio'', 962 / 1000),
      (''fuel_flow_ratio'', 75 / 100),
      (''tire_grip_ratio'', 94 / 100)]"

text \<open>
  The dashboard's own table \<open>KEY_REGULATION_FEATURES\<close> (\<open>dataAdapter.ts\<close>), which is
  displayed and never applied to a feature row.
\<close>

datatype category = Power | Aero | Weight | Fuel | Tire

record regulation_feature =
  feature_id :: string
  feature_name :: string
  feature_category :: category
  description :: string
  baseline :: real
  target2026 :: real
  multiplier :: real

definition KEY_REGULATION_FEATURES :: "regulation_feature list" where
  "KEY_REGULATION_FEATURES =
     [\<lparr>feature_id = ''power_ratio'', feature_name = ''ERS Power Split'',
       feature_category = Power, description = ''50% electric power (up from 15%)'',
       baseline = 15 / 100, target2026 = 50 / 100, multiplier = 333 / 100\<rparr>,
      \<lparr>feature_id = ''aero_coeff'', feature_name = ''Active Aerodynamics'',
       feature_category = Aero, description = ''Movable aero elements for efficiency'',
       baseline = 1, target2026 = 105 / 100, multiplier = 105 / 100\<rparr>,
      \<lparr>feature_id = ''weight_ratio'', feature_name = ''Chassis Weight'',
       feature_category = Weight, description = ''768kg minimum (down from 798kg)'',
       baseline = 1, target2026 = 962 / 1000, multiplier = 962 / 1000\<rparr>,
      \<lparr>feature_id = ''fuel_flow_ratio'', feature_name = ''Fuel Flow Limit'',
       feature_category = Fuel, description = ''Reduced flow rate with efficiency focus'',
       baseline = 1, target2026 = 75 / 100, multiplier = 75 / 100\<rparr>,
      \<lparr>feature_id = ''tire_grip_ratio'', feature_name = ''Tire Specification'',
       feature_category = Tire, description = ''New 18-inch low-profile tires'',
       baseline = 1, target2026 = 94 / 100, multiplier = 94 / 100\<rparr>,
      \<lparr>feature_id = ''avg_pos_last5'', feature_name = ''Driver Form'',
       feature_category = Power, description = ''Average position over last 5 races'',
       baseline = 10, target2026 = 10, multiplier = 1\<rparr>]"

section \<open>The dashboard's reader of the result artifact\<close>

text \<open>
  The parsed JSON artifact as the dashboard types it: a race object has an
  \<open>event_name\<close> and scenario tables under string keys; a table maps a driver name to
  its statistics. Keys of a JSON object are distinct and are listed in insertion
  order (no key here is the decimal form of an integer).
\<close>

type_synonym driver_table = "(string \<times> stats) list"

record race =
  event_name :: "string option"
  scenarios :: "(string \<times> driver_table) list"

type_synonym artifact = "(string \<times> race) list"

text \<open>
  \<open>race.current || {}\<close> and \<open>race['2026'] || {}\<close>: a missing key reads as an empty
  table.
\<close>

definition current_table :: "race \<Rightarrow> driver_table" where
  "current_table r = (case map_of (scenarios r) ''current'' of None \<Rightarrow> [] | Some t \<Rightarrow> t)"

definition future_table :: "race \<Rightarrow> driver_table" where
  "future_table r = (case map_of (scenarios r) ''2026'' of None \<Rightarrow> [] | Some t \<Rightarrow> t)"

text \<open>
  \<open>table[driverName]?.mean\<close>: a JavaScript number, or \<open>undefined\<close> (here \<open>None\<close>)
  when the driver or the field is missing.
\<close>

definition mean_of :: "driver_table \<Rightarrow> string \<Rightarrow> real option" where
  "mean_of t driverName =
     (case map_of t driverName of None \<Rightarrow> None | Some st \<Rightarrow> map_of st ''mean'')"

text \<open>\<open>a || b\<close> on numbers: \<open>undefined\<close> and \<open>0\<close> are falsy.\<close>

definition js_or :: "real option \<Rightarrow> real option \<Rightarrow> real option" where
  "js_or a b = (case a of None \<Rightarrow> b | Some x \<Rightarrow> if x = 0 then b else Some x)"

text \<open>
  \<open>average\<close>: the sum from \<open>0\<close> over the length. The result is NaN (here \<open>None\<close>) for
  an empty array and for an array with an \<open>undefined\<close> entry.
\<close>

definition average :: "real option list \<Rightarrow> real option" where
  "average arr =
     (if arr = [] \<or> None \<in> set arr then None
      else Some (sum_list (present arr) / real (length arr)))"

text \<open>The placeholder \<open>extractTeamName\<close>.\<close>

definition extractTeamName :: "string \<Rightarrow> string" where
  "extractTeamName driverName = ''Unknown Team''"

record team_acc =
  acc_baseline :: "real option list"
  acc_predicted :: "real option list"
  acc_drivers :: "string list"

text \<open>
  The body of the inner \<open>forEach\<close>: the team's entry is created when missing, the two
  means are pushed and the driver name is added to the set (kept in insertion order).
\<close>

definition add_driver ::
  "driver_table \<Rightarrow> driver_table \<Rightarrow> string \<Rightarrow> (string \<times> team_acc) list
     \<Rightarrow> (string \<times> team_acc) list" where
  "add_driver current future driverName teamStats =
     (let tn = extractTeamName driverName;
          entry = (case map_of teamStats tn of
                     None \<Rightarrow> \<lparr>acc_baseline = [], acc_predicted = [], acc_drivers = []\<rparr>
                   | Some e \<Rightarrow> e)
      in AList.update tn
           \<lparr>acc_baseline = acc_baseline entry @ [mean_of current driverName],
            acc_predicted = acc_predicted entry @
              [js_or (mean_of future driverName) (mean_of current driverName)],
            acc_drivers = (if driverName \<in> set (acc_drivers entry) then acc_drivers entry
                           else acc_drivers entry @ [driverName])\<rparr>
           teamStats)"

definition add_race :: "race \<Rightarrow> (string \<times> team_acc) list \<Rightarrow> (string \<times> team_acc) list" where
  "add_race r teamStats =
     (let current = current_table r; future = future_table r
      in fold (add_driver current future) (map fst current) teamStats)"

text \<open>\<open>toLowerCase()\<close> and \<open>replace(/\s+/g, '-')\<close> on ASCII text.\<close>

definition to_lower :: "char \<Rightarrow> char" where
  "to_lower c =
     (case map_of (zip ''ABCDEFGHIJKLMNOPQRSTUVWXYZ'' ''abcdefghijklmnopqrstuvwxyz'') c of
        None \<Rightarrow> c
      | Some l \<Rightarrow> l)"

definition is_space :: "char \<Rightarrow> bool" where
  "is_space c \<longleftrightarrow> (of_char c :: nat) \<in> {9, 10, 11, 12, 13, 32}"

function replace_ws :: "string \<Rightarrow> string" where
  "replace_ws [] = []"
| "replace_ws (c # cs) =
     (if is_space c then CHR ''-'' # replace_ws (dropWhile is_space cs)
      else c # replace_ws cs)"
  by pat_completeness auto
termination
  by (relation "measure length") (auto simp: length_dropWhile_le less_Suc_eq_le)

definition team_id :: "string \<Rightarrow> string" where
  "team_id tn = replace_ws (map to_lower tn)"

text \<open>The decimal form of an index, for the template \<open>`${teamName}-${idx}`\<close>.\<close>

function decimal :: "nat \<Rightarrow> string" where
  "decimal n =
     (if n < 10 then [''0123456789'' ! n]
      else decimal (n div 10) @ [''0123456789'' ! (n mod 10)])"
  by pat_completeness auto
termination
  by (relation "measure id") auto

record driver =
  driver_id :: string
  driver_name :: string
  driver_number :: nat
  driver_teamId :: string
  baseline2025Position :: real
  predicted2026Position :: real
  confidence :: real

record team_performance =
  teamId :: string
  teamName :: string
  constructor_name :: string
  baseline2025 :: "real option"
  predicted2026 :: "real option"
  team_drivers :: "driver list"
  factorImpacts :: "(string \<times> real) list"

definition to_team_performance :: "string \<times> team_acc \<Rightarrow> team_performance" where
  "to_team_performance entry =
     (case entry of (tn, st) \<Rightarrow>
        \<lparr>teamId = team_id tn,
         teamName = tn,
         constructor_name = tn,
         baseline2025 = average (acc_baseline st),
         predicted2026 = average (acc_predicted st),
         team_drivers = map (\<lambda>(name, idx).
             \<lparr>driver_id = tn @ ''-'' @ decimal idx,
              driver_name = name,
              driver_number = idx + 1,
              driver_teamId = team_id tn,
              baseline2025Position = 10,
              predicted2026Position = 10,
              confidence = 85 / 100\<rparr>)
           (zip (acc_drivers st) [0..<length (acc_drivers st)]),
         factorImpacts = []\<rparr>)"

definition extractTeamPerformance :: "artifact \<Rightarrow> team_performance list" where
  "extractTeamPerformance monteCarloResults =
     map to_team_performance (fold add_race (map snd monteCarloResults) [])"

text \<open>The field names of one entity's statistics object, in the artifact's order.\<close>

definition stat_fields :: "string list" where
  "stat_fields =
     [''mean'', ''std'', ''median'', ''min'', ''max'', ''percentile_5'', ''percentile_95'',
      ''top3_probability'', ''top5_probability'']"

section \<open>Auxiliary notions and concrete inputs\<close>

text \<open>One entity's draws: the column \<open>idx\<close> of the accumulator.\<close>

definition entity_column :: "ndarray2 \<Rightarrow> nat \<Rightarrow> real list" where
  "entity_column p idx = map (\<lambda>r. r ! idx) (rows p)"

text \<open>
  A column name carries a marker when one of the substrings that
  \<open>_perturb_features\<close> looks for occurs in it.
\<close>

definition has_marker :: "string \<Rightarrow> bool" where
  "has_marker col \<longleftrightarrow>
     list_ex (\<lambda>token. str_in token col)
       [''pos'', ''grid'', ''rain'', ''temp'', ''wind'', ''pit'', ''fuel'', ''compound'']"

text \<open>
  The columns of the 25-feature catalogue whose names carry no marker: two of the
  driver-form columns, the four track columns, four of the five regulation columns,
  the two derived columns and the three context columns.
\<close>

definition unperturbed_catalogue :: "string list" where
  "unperturbed_catalogue =
     [''points_last5'', ''dnf_count_last5'',
      ''track_type_index'', ''corners'', ''straight_fraction'', ''overtaking_difficulty'',
      ''power_ratio'', ''aero_coeff'', ''weight_ratio'', ''tire_grip_ratio'',
      ''team_consistency_score'', ''driver_aggressiveness_index'',
      ''season_year'', ''round_number'', ''season_phase'']"

text \<open>
  The strategy step of one column: the generator's \<open>integers(-1, 2, size=n)\<close> at
  the state \<open>g\<close>, times \<open>strategy_delta\<close>.
\<close>

definition strategy_step :: "'g simulator \<Rightarrow> nat \<Rightarrow> 'g \<Rightarrow> real list" where
  "strategy_step sim n g =
     map (\<lambda>k. real_of_int k * strategy_delta (config sim))
       (fst (rng_integers (rng_ops sim) (- 1) 2 n g))"

definition ruleset_columns :: "string list" where
  "ruleset_columns =
     [''power_ratio'', ''aero_coeff'', ''weight_ratio'', ''fuel_flow_ratio'', ''tire_grip_ratio'']"

text \<open>An accumulator of four draws for two entities.\<close>

definition demo_accumulator :: ndarray2 where
  "demo_accumulator = \<lparr>ncols = 2, rows = [[1, 4], [25 / 10, 6], [3, 45 / 10], [7, 5]]\<rparr>"

text \<open>
  A simulator with the default noise levels, a configured default of two draws, and a
  stub regressor that predicts position 15 for every row.
\<close>

definition demo_config :: mc_config where
  "demo_config =
     \<lparr>n_simulations = 2, driver_form_sigma = 5 / 100, weather_sigma = 1 / 10,
      strategy_delta = 1 / 10\<rparr>"

definition fuel_sim :: "(real list \<times> int list) simulator" where
  "fuel_sim =
     \<lparr>model_predict = (\<lambda>fr. Inr (replicate (nrows fr) 15)),
      feature_columns =
        [''grid_position'', ''power_ratio'', ''fuel_flow_ratio'', ''fuel_efficiency_rating''],
      config = demo_config,
      rng_ops = replay\<rparr>"

definition fuel_frame :: "real frame" where
  "fuel_frame =
     \<lparr>nrows = 1,
      cols = [(''grid_position'', [4]), (''power_ratio'', [15 / 100]),
              (''fuel_flow_ratio'', [1]), (''fuel_efficiency_rating'', [1 / 2])]\<rparr>"

definition fuel_frame_perturbed :: "real frame" where
  "fuel_frame_perturbed =
     \<lparr>nrows = 1,
      cols = [(''grid_position'', [44 / 10]), (''power_ratio'', [15 / 100]),
              (''fuel_flow_ratio'', [11 / 10]), (''fuel_efficiency_rating'', [6 / 10])]\<rparr>"

text \<open>An event with three entities.\<close>

definition three_features :: "real frame" where
  "three_features =
     \<lparr>nrows = 3,
      cols = [(''grid_position'', [1, 2, 3]),
              (''power_ratio'', [15 / 100, 15 / 100, 15 / 100]),
              (''fuel_flow_ratio'', [1, 1, 1]),
              (''fuel_efficiency_rating'', [1 / 2, 1 / 2, 1 / 2]),
              (''position'', [1, 2, 3])]\<rparr>"

definition three_accumulator :: ndarray2 where
  "three_accumulator = \<lparr>ncols = 3, rows = [[15, 15, 15], [15, 15, 15]]\<rparr>"

text \<open>One feature row with the baseline ruleset parameters.\<close>

definition baseline_row :: "real frame" where
  "baseline_row =
     \<lparr>nrows = 1,
      cols = [(''grid_position'', [4]), (''power_ratio'', [15 / 100]), (''aero_coeff'', [1]),
              (''weight_ratio'', [1]), (''fuel_flow_ratio'', [1]), (''tire_grip_ratio'', [1]),
              (''season_year'', [2024])]\<rparr>"

text \<open>
  A table of five rows whose column \<open>a\<close> misses its first value, and a shuffle that
  holds out the last row.
\<close>

definition leak_table :: "real option frame" where
  "leak_table = \<lparr>nrows = 5, cols = [(''a'', [None, Some 1, Some 2, Some 3, Some 9])]\<rparr>"

definition hold_out_last :: "nat \<Rightarrow> nat list" where
  "hold_out_last n = [4, 0, 1, 2, 3]"

definition leak_train_frame :: "real option frame" where
  "leak_train_frame =
     \<lparr>nrows = 4, cols = [(''a'', [Some (15 / 4), Some 1, Some 2, Some 3])]\<rparr>"

text \<open>
  Two scenario tables for the entities \<open>A\<close> and \<open>B\<close>, one event's object holding
  them under the keys \<open>current\<close> and \<open>2026\<close>, the same object with the second table
  under \<open>future\<close>, and the dashboard's team record for the two entities.
\<close>

definition const_stats :: "real \<Rightarrow> real \<Rightarrow> real \<Rightarrow> stats" where
  "const_stats x t3 t5 =
     [(''mean'', x), (''std'', 0), (''median'', x), (''min'', x), (''max'', x),
      (''percentile_5'', x), (''percentile_95'', x),
      (''top3_probability'', t3), (''top5_probability'', t5)]"

definition demo_current :: driver_table where
  "demo_current = [(''A'', const_stats 2 1 1), (''B'', const_stats 4 0 1)]"

definition demo_future :: driver_table where
  "demo_future = [(''A'', const_stats 5 0 1), (''B'', const_stats 3 1 1)]"

definition race_2026 :: race where
  "race_2026 =
     \<lparr>event_name = Some ''Bahrain Grand Prix'',
      scenarios = [(''current'', demo_current), (''2026'', demo_future)]\<rparr>"

definition race_future :: race where
  "race_future =
     \<lparr>event_name = Some ''Bahrain Grand Prix'',
      scenarios = [(''current'', demo_current), (''future'', demo_future)]\<rparr>"

definition unknown_team :: "real option \<Rightarrow> real option \<Rightarrow> team_performance" where
  "unknown_team b p =
     \<lparr>teamId = ''unknown-team'', teamName = ''Unknown Team'',
      constructor_name = ''Unknown Team'',
      baseline2025 = b, predicted2026 = p,
      team_drivers =
        [\<lparr>driver_id = ''Unknown Team-0'', driver_name = ''A'', driver_number = 1,
          driver_teamId = ''unknown-team'', baseline2025Position = 10,
          predicted2026Position = 10, confidence = 85 / 100\<rparr>,
         \<lparr>driver_id = ''Unknown Team-1'', driver_name = ''B'', driver_number = 2,
          driver_teamId = ''unknown-team'', baseline2025Position = 10,
          predicted2026Position = 10, confidence = 85 / 100\<rparr>],
      factorImpacts = []\<rparr>"

section \<open>Order statistics\<close>

lemma lerp_at_mono:
  assumes s: "sorted s" and v: "0 \<le> v" "v \<le> w" and w: "w \<le> real (length s - 1)" and ne: "s \<noteq> []"
  shows "lerp_at s v \<le> lerp_at s w"
proof -
  define a where "a = nat \<lfloor>v\<rfloor>"
  define b where "b = nat \<lfloor>w\<rfloor>"
  define n where "n = length s"
  have n: "0 < n" using ne by (simp add: n_def)
  have ab: "a \<le> b" unfolding a_def b_def using v by (simp add: floor_mono nat_mono)
  have bn: "b \<le> n - 1" unfolding b_def n_def using w v by (simp add: le_nat_floor nat_le_iff floor_le_iff) 
  have gv: "0 \<le> v - real a" "v - real a \<le> 1" unfolding a_def using v by (simp_all add: of_nat_nat) linarith+
  have gw: "0 \<le> w - real b" "w - real b \<le> 1" unfolding b_def using v by (simp_all add: of_nat_nat) linarith+
  have nth_mono: "\<And>i j. i \<le> j \<Longrightarrow> j < n \<Longrightarrow> s ! i \<le> s ! j"
    using s by (simp add: sorted_nth_mono n_def)
  have ha: "s ! a \<le> s ! min (a + 1) (n - 1)" using ab bn n by (intro nth_mono) auto
  have hb: "s ! b \<le> s ! min (b + 1) (n - 1)" using bn n by (intro nth_mono) auto
  have lv: "lerp_at s v = s ! a + (s ! min (a + 1) (n - 1) - s ! a) * (v - real a)"
    by (simp add: lerp_at_def Let_def a_def n_def)
  have lw: "lerp_at s w = s ! b + (s ! min (b + 1) (n - 1) - s ! b) * (w - real b)"
    by (simp add: lerp_at_def Let_def b_def n_def)
  show ?thesis
  proof (cases "a = b")
    case True
    have "(s ! min (b + 1) (n - 1) - s ! b) * (v - real b) \<le> (s ! min (b + 1) (n - 1) - s ! b) * (w - real b)"
      using hb v by (intro mult_left_mono) auto
    then show ?thesis using True lv lw by simp
  next
    case False
    then have lt: "a + 1 \<le> b" using ab by simp
    then have m: "min (a + 1) (n - 1) = a + 1" using bn by simp
    have "(s ! (a + 1) - s ! a) * (v - real a) \<le> (s ! (a + 1) - s ! a) * 1"
      using ha gv m by (intro mult_left_mono) auto
    then have "lerp_at s v \<le> s ! (a + 1)" using lv m by simp
    also have "\<dots> \<le> s ! b" using lt bn n by (intro nth_mono) auto
    also have "\<dots> \<le> lerp_at s w"
    proof -
      have "0 \<le> (s ! min (b + 1) (n - 1) - s ! b) * (w - real b)"
        using hb gw by (intro mult_nonneg_nonneg) auto
      then show ?thesis using lw by simp
    qed
    finally show ?thesis .
  qed
qed

lemma lerp_at_first: "lerp_at s 0 = s ! 0"
  by (simp add: lerp_at_def)

lemma lerp_at_last: "s \<noteq> [] \<Longrightarrow> lerp_at s (real (length s - 1)) = s ! (length s - 1)"
  by (simp add: lerp_at_def Let_def)

lemma median_np_lerp:
  assumes "xs \<noteq> []"
  shows "median_np xs = lerp_at (sort xs) (real (length xs - 1) / 2)"
proof (cases "length xs mod 2 = 1")
  case True
  then obtain k where k: "length xs = 2 * k + 1" by (metis mod_mult_div_eq mult.commute add.commute)
  then show ?thesis by (simp add: median_np_def lerp_at_def Let_def)
next
  case False
  then obtain k where k: "length xs = 2 * k" by (metis dvd_def even_iff_mod_2_eq_zero not_mod_2_eq_1_eq_0)
  with assms have k0: "0 < k" by (cases k) auto
  define v where "v = real (length xs - 1) / 2"
  have vk: "v = real k - 1 / 2" using k k0 by (simp add: v_def of_nat_diff field_simps)
  have fl: "\<lfloor>v\<rfloor> = int k - 1" unfolding vk by (simp add: floor_eq_iff)
  have lo: "nat \<lfloor>v\<rfloor> = k - 1" using fl k0 by (simp add: nat_diff_distrib)
  have g: "v - real (k - 1) = 1 / 2" using vk k0 by (simp add: of_nat_diff)
  have hi: "min (k - 1 + 1) (length (sort xs) - 1) = k" using k k0 by simp
  have "lerp_at (sort xs) v = sort xs ! (k - 1) + (sort xs ! k - sort xs ! (k - 1)) * (1 / 2)"
    unfolding lerp_at_def Let_def lo g hi ..
  also have "\<dots> = (sort xs ! (k - 1) + sort xs ! k) / 2" by (simp add: field_simps)
  also have "\<dots> = median_np xs" using k by (simp add: median_np_def Let_def)
  finally show ?thesis by (simp add: v_def)
qed

lemma min_np_le: "x \<in> set xs \<Longrightarrow> min_np xs \<le> x"
proof -
  assume x: "x \<in> set xs"
  then obtain y ys where xs: "xs = y # ys" by (cases xs) auto
  have "min_np xs = Min (set xs)" unfolding xs min_np_def using Min.set_eq_fold [of y ys] by simp
  then show ?thesis using x by simp
qed

lemma max_np_ge: "x \<in> set xs \<Longrightarrow> x \<le> max_np xs"
proof -
  assume x: "x \<in> set xs"
  then obtain y ys where xs: "xs = y # ys" by (cases xs) auto
  have "max_np xs = Max (set xs)" unfolding xs max_np_def using Max.set_eq_fold [of y ys] by simp
  then show ?thesis using x by simp
qed

lemma sort_nth_mem: "i < length xs \<Longrightarrow> sort xs ! i \<in> set xs"
  by (metis length_sort nth_mem set_sort)

lemma percentile_np_mono:
  assumes "xs \<noteq> []" "0 \<le> p" "p \<le> q" "q \<le> 100"
  shows "percentile_np xs p \<le> percentile_np xs q"
  unfolding percentile_np_def
proof (rule lerp_at_mono)
  show "sorted (sort xs)" by simp
  show "0 \<le> real (length xs - 1) * p / 100" using assms by simp
  show "real (length xs - 1) * p / 100 \<le> real (length xs - 1) * q / 100"
    using assms by (simp add: mult_left_mono divide_right_mono)
  have "real (length xs - 1) * q \<le> real (length xs - 1) * 100"
    using assms by (intro mult_left_mono) auto
  then show "real (length xs - 1) * q / 100 \<le> real (length (sort xs) - 1)" by simp
  show "sort xs \<noteq> []" using assms by (metis length_sort length_0_conv)
qed

lemma median_np_percentile: "xs \<noteq> [] \<Longrightarrow> median_np xs = percentile_np xs 50"
  by (simp add: median_np_lerp percentile_np_def)

lemma percentile_np_0: "percentile_np xs 0 = sort xs ! 0"
  by (simp add: percentile_np_def lerp_at_first)

lemma percentile_np_100: "xs \<noteq> [] \<Longrightarrow> percentile_np xs 100 = sort xs ! (length xs - 1)"
  using lerp_at_last [of "sort xs"] by (simp add: percentile_np_def) (metis length_sort length_0_conv)

lemma order_statistics_chain:
  assumes ne: "xs \<noteq> []"
  shows "min_np xs \<le> percentile_np xs 5"
    and "percentile_np xs 5 \<le> median_np xs"
    and "median_np xs \<le> percentile_np xs 95"
    and "percentile_np xs 95 \<le> max_np xs"
proof -
  have len: "0 < length xs" using ne by simp
  have "min_np xs \<le> sort xs ! 0" using len by (intro min_np_le sort_nth_mem)
  also have "\<dots> = percentile_np xs 0" by (simp add: percentile_np_0)
  also have "\<dots> \<le> percentile_np xs 5" using ne by (intro percentile_np_mono) auto
  finally show "min_np xs \<le> percentile_np xs 5" .
  show "percentile_np xs 5 \<le> median_np xs"
    unfolding median_np_percentile [OF ne] using ne by (intro percentile_np_mono) auto
  show "median_np xs \<le> percentile_np xs 95"
    unfolding median_np_percentile [OF ne] using ne by (intro percentile_np_mono) auto
  have "percentile_np xs 95 \<le> percentile_np xs 100" using ne by (intro percentile_np_mono) auto
  also have "\<dots> = sort xs ! (length xs - 1)" using ne by (rule percentile_np_100)
  also have "\<dots> \<le> max_np xs" using len by (intro max_np_ge sort_nth_mem) auto
  finally show "percentile_np xs 95 \<le> max_np xs" .
qed

lemma frac_le_bounds:
  assumes "k \<le> k'"
  shows "0 \<le> frac_le xs k" and "frac_le xs k \<le> frac_le xs k'" and "frac_le xs k' \<le> 1"
proof -
  show "0 \<le> frac_le xs k" by (simp add: frac_le_def)
  have "length (filter (\<lambda>x. x \<le> k) xs) \<le> length (filter (\<lambda>x. x \<le> k') xs)"
    using assms by (induction xs) auto
  then show "frac_le xs k \<le> frac_le xs k'"
    by (simp add: frac_le_def divide_right_mono)
  have "length (filter (\<lambda>x. x \<le> k') xs) \<le> length xs" by simp
  then show "frac_le xs k' \<le> 1"
    by (cases "xs = []") (simp_all add: frac_le_def)
qed

section \<open>The summary loop\<close>

lemma driver_stats_Inr:
  "d \<noteq> [] \<Longrightarrow> \<exists>st. driver_stats d = Inr st"
  by (simp add: driver_stats_def)

lemma summarise_loop_result:
  assumes "rows p \<noteq> []" "idx + length ds \<le> ncols p"
  shows "\<exists>out. summarise_loop p idx ds acc = Inr out \<and>
           (\<forall>j<length ds. ds ! j \<notin> set (drop (Suc j) ds) \<longrightarrow>
              (\<exists>st. driver_stats (map (\<lambda>r. r ! (idx + j)) (rows p)) = Inr st \<and>
                    map_of out (ds ! j) = Some st)) \<and>
           (\<forall>d. d \<notin> set ds \<longrightarrow> map_of out d = map_of acc d)"
  using assms(2)
proof (induction ds arbitrary: idx acc)
  case Nil
  then show ?case by simp
next
  case (Cons driver ds)
  have col: "array_column p idx = Inr (map (\<lambda>r. r ! idx) (rows p))"
    using Cons.prems by (simp add: array_column_def)
  obtain st where st: "driver_stats (map (\<lambda>r. r ! idx) (rows p)) = Inr st"
    using driver_stats_Inr [of "map (\<lambda>r. r ! idx) (rows p)"] assms(1) by auto
  let ?acc = "AList.update driver st acc"
  from Cons.prems have "Suc idx + length ds \<le> ncols p" by simp
  from Cons.IH [OF this, of ?acc] obtain out where
    out: "summarise_loop p (Suc idx) ds ?acc = Inr out"
    and later: "\<And>j. j < length ds \<Longrightarrow> ds ! j \<notin> set (drop (Suc j) ds) \<Longrightarrow>
              (\<exists>st. driver_stats (map (\<lambda>r. r ! (Suc idx + j)) (rows p)) = Inr st \<and>
                    map_of out (ds ! j) = Some st)"
    and other: "\<And>d. d \<notin> set ds \<Longrightarrow> map_of out d = map_of ?acc d"
    by blast
  have res: "summarise_loop p idx (driver # ds) acc = Inr out"
    by (simp add: col st out)
  have here: "\<exists>st'. driver_stats (map (\<lambda>r. r ! (idx + j)) (rows p)) = Inr st' \<and>
                    map_of out ((driver # ds) ! j) = Some st'"
    if j: "j < length (driver # ds)" and last: "(driver # ds) ! j \<notin> set (drop (Suc j) (driver # ds))" for j
  proof (cases j)
    case 0
    with last have "driver \<notin> set ds" by simp
    then have "map_of out driver = Some st" by (simp add: other update_conv')
    with 0 st show ?thesis by simp
  next
    case (Suc j')
    with j last have "j' < length ds" "ds ! j' \<notin> set (drop (Suc j') ds)" by simp_all
    from later [OF this] show ?thesis by (simp add: Suc)
  qed
  have rest: "map_of out d = map_of acc d" if "d \<notin> set (driver # ds)" for d
    using that by (simp add: other update_conv')
  show ?case using res here rest by blast
qed

lemma summarise_predictions_entity:
  assumes "rows p \<noteq> []" "length drivers \<le> ncols p" "idx < length drivers"
    "drivers ! idx \<notin> set (drop (Suc idx) drivers)"
  shows "\<exists>out st. summarise_predictions p drivers = Inr out \<and>
           map_of out (drivers ! idx) = Some st \<and>
           driver_stats (entity_column p idx) = Inr st"
  using summarise_loop_result [of p 0 drivers "[]"] assms
  by (fastforce simp: summarise_predictions_def entity_column_def)

section \<open>The perturbation step\<close>

lemma map_of_set_col:
  "map_of (cols (set_col c v fr)) c' = (if c' = c then Some v else map_of (cols fr) c')"
  by (simp add: set_col_def update_conv')

lemma nrows_set_col: "nrows (set_col c v fr) = nrows fr"
  by (simp add: set_col_def)

lemma select_columns_names: "select_columns fr cs = Inr sel \<Longrightarrow> map fst sel = cs"
  by (induction cs arbitrary: sel) (auto split: option.splits sum.splits)

lemma fold_set_col_frame:
  "nrows (fold (\<lambda>(c, v). set_col c (f v)) sel fr) = nrows fr \<and>
   (c \<notin> fst ` set sel \<longrightarrow>
      map_of (cols (fold (\<lambda>(c, v). set_col c (f v)) sel fr)) c = map_of (cols fr) c)"
  by (induction sel arbitrary: fr) (auto simp: map_of_set_col nrows_set_col)

lemma perturb_form_frame:
  assumes "perturb_form sim fr g = (Inr fr', g')"
  shows "nrows fr' = nrows fr"
    and "c \<notin> set (form_cols (feature_columns sim)) \<Longrightarrow> map_of (cols fr') c = map_of (cols fr) c"
proof -
  show "nrows fr' = nrows fr"
    using assms fold_set_col_frame
    by (auto simp: perturb_form_def Let_def split: if_splits prod.splits sum.splits)
  assume c: "c \<notin> set (form_cols (feature_columns sim))"
  show "map_of (cols fr') c = map_of (cols fr) c"
  proof (cases "form_cols (feature_columns sim) = []")
    case True
    with assms show ?thesis by (simp add: perturb_form_def)
  next
    case False
    with assms obtain noise sel where
      sel: "select_columns fr (form_cols (feature_columns sim)) = Inr sel"
      and fr': "fr' = fold (\<lambda>(c, v). set_col c (scale_rows noise v)) sel fr"
      by (auto simp: perturb_form_def Let_def split: prod.splits sum.splits)
    from select_columns_names [OF sel] c have "c \<notin> fst ` set sel" by (metis set_map)
    then show ?thesis using fold_set_col_frame [of "scale_rows noise" sel fr c] fr' by simp
  qed
qed

lemma perturb_weather_frame:
  "perturb_weather sim cs fr g = (Inr fr', g') \<Longrightarrow>
     nrows fr' = nrows fr \<and> (c \<notin> set cs \<longrightarrow> map_of (cols fr') c = map_of (cols fr) c)"
proof (induction cs arbitrary: fr g)
  case Nil
  then show ?case by simp
next
  case (Cons column cs)
  then show ?case
    by (fastforce simp: map_of_set_col nrows_set_col split: prod.splits sum.splits)
qed

lemma perturb_strategy_frame:
  "perturb_strategy sim cs fr g = (Inr fr', g') \<Longrightarrow>
     nrows fr' = nrows fr \<and> (c \<notin> set cs \<longrightarrow> map_of (cols fr') c = map_of (cols fr) c)"
proof (induction cs arbitrary: fr g)
  case Nil
  then show ?case by simp
next
  case (Cons column cs)
  then show ?case
    by (fastforce simp: Let_def map_of_set_col nrows_set_col split: prod.splits sum.splits)
qed

lemma perturb_features_frame:
  assumes "perturb_features sim fr g = (Inr fr', g')"
  shows "nrows fr' = nrows fr"
    and "c \<notin> set (form_cols (feature_columns sim)) \<Longrightarrow>
         c \<notin> set (weather_cols (feature_columns sim)) \<Longrightarrow>
         c \<notin> set (strategy_cols (feature_columns sim)) \<Longrightarrow>
         map_of (cols fr') c = map_of (cols fr) c"
proof -
  from assms obtain fr1 g1 fr2 g2 where
    s1: "perturb_form sim fr g = (Inr fr1, g1)"
    and s2: "perturb_weather sim (weather_cols (feature_columns sim)) fr1 g1 = (Inr fr2, g2)"
    and s3: "perturb_strategy sim (strategy_cols (feature_columns sim)) fr2 g2 = (Inr fr', g')"
    by (auto simp: perturb_features_def split: prod.splits sum.splits)
  show "nrows fr' = nrows fr"
    using perturb_form_frame(1) [OF s1] perturb_weather_frame [OF s2] perturb_strategy_frame [OF s3]
    by simp
  assume "c \<notin> set (form_cols (feature_columns sim))"
    "c \<notin> set (weather_cols (feature_columns sim))"
    "c \<notin> set (strategy_cols (feature_columns sim))"
  then show "map_of (cols fr') c = map_of (cols fr) c"
    using perturb_form_frame(2) [OF s1, of c] perturb_weather_frame [OF s2, of c]
      perturb_strategy_frame [OF s3, of c]
    by simp
qed

lemma no_marker_not_selected:
  assumes "\<not> has_marker c"
  shows "c \<notin> set (form_cols fcs)" "c \<notin> set (weather_cols fcs)" "c \<notin> set (strategy_cols fcs)"
  using assms by (auto simp: has_marker_def form_cols_def weather_cols_def strategy_cols_def)

lemma not_feature_not_selected:
  assumes "c \<notin> set fcs"
  shows "c \<notin> set (form_cols fcs)" "c \<notin> set (weather_cols fcs)" "c \<notin> set (strategy_cols fcs)"
  using assms by (auto simp: form_cols_def weather_cols_def strategy_cols_def)

lemma unperturbed_catalogue_no_marker: "c \<in> set unperturbed_catalogue \<Longrightarrow> \<not> has_marker c"
  by (auto simp: unperturbed_catalogue_def has_marker_def)

lemma perturb_strategy_step:
  "perturb_strategy sim cs fr g = (Inr fr', g') \<Longrightarrow> distinct cs \<Longrightarrow> c \<in> set cs \<Longrightarrow>
     \<exists>gc v. map_of (cols fr) c = Some v \<and>
       map_of (cols fr') c = Some (shift_rows (strategy_step sim (nrows fr) gc) v)"
proof (induction cs arbitrary: fr g)
  case Nil
  then show ?case by simp
next
  case (Cons column cs)
  obtain steps g1 where n: "rng_integers (rng_ops sim) (- 1) 2 (nrows fr) g = (steps, g1)"
    by (cases "rng_integers (rng_ops sim) (- 1) 2 (nrows fr) g")
  let ?delta = "map (\<lambda>k. real_of_int k * strategy_delta (config sim)) steps"
  have delta: "?delta = strategy_step sim (nrows fr) g" by (simp add: strategy_step_def n)
  from Cons.prems(1) n obtain v where
    v: "map_of (cols fr) column = Some v"
    and rest: "perturb_strategy sim cs (set_col column (shift_rows ?delta v) fr) g1 = (Inr fr', g')"
    by (auto simp: get_col_def Let_def split: option.splits)
  let ?fr = "set_col column (shift_rows ?delta v) fr"
  show ?case
  proof (cases "c = column")
    case True
    with Cons.prems(2) have "c \<notin> set cs" by simp
    with perturb_strategy_frame [OF rest, of c]
    have "map_of (cols fr') c = map_of (cols ?fr) c" by simp
    then have "map_of (cols fr') c = Some (shift_rows (strategy_step sim (nrows fr) g) v)"
      using True delta by (simp add: map_of_set_col)
    with v True show ?thesis by blast
  next
    case False
    with Cons.prems have "distinct cs" "c \<in> set cs" by simp_all
    from Cons.IH [OF rest this] obtain gc w where
      "map_of (cols ?fr) c = Some w"
      "map_of (cols fr') c = Some (shift_rows (strategy_step sim (nrows ?fr) gc) w)" by blast
    with False show ?thesis by (auto simp: map_of_set_col nrows_set_col)
  qed
qed

lemma perturb_features_strategy_step:
  assumes ok: "perturb_features sim fr g = (Inr fr', g')"
    and d: "distinct (feature_columns sim)"
    and s: "c \<in> set (strategy_cols (feature_columns sim))"
    and f: "c \<notin> set (form_cols (feature_columns sim))"
    and w: "c \<notin> set (weather_cols (feature_columns sim))"
  shows "\<exists>gc v. map_of (cols fr) c = Some v \<and>
           map_of (cols fr') c = Some (shift_rows (strategy_step sim (nrows fr) gc) v)"
proof -
  from ok obtain fr1 g1 fr2 g2 where
    s1: "perturb_form sim fr g = (Inr fr1, g1)"
    and s2: "perturb_weather sim (weather_cols (feature_columns sim)) fr1 g1 = (Inr fr2, g2)"
    and s3: "perturb_strategy sim (strategy_cols (feature_columns sim)) fr2 g2 = (Inr fr', g')"
    by (auto simp: perturb_features_def split: prod.splits sum.splits)
  have ds: "distinct (strategy_cols (feature_columns sim))"
    using d by (simp add: strategy_cols_def)
  have same: "map_of (cols fr2) c = map_of (cols fr) c" "nrows fr2 = nrows fr"
    using perturb_form_frame [OF s1] perturb_weather_frame [OF s2, of c] f w by simp_all
  from perturb_strategy_step [OF s3 ds s] same show ?thesis by simp
qed

lemma fuel_efficiency_rating_markers:
  assumes "''fuel_efficiency_rating'' \<in> set fcs"
  shows "''fuel_efficiency_rating'' \<in> set (strategy_cols fcs)"
    and "''fuel_efficiency_rating'' \<notin> set (form_cols fcs)"
    and "''fuel_efficiency_rating'' \<notin> set (weather_cols fcs)"
  using assms by (simp_all add: strategy_cols_def form_cols_def weather_cols_def)

section \<open>The simulation loop\<close>

lemma clip_bounds: "1 \<le> clip x \<and> clip x \<le> 20"
  by (simp add: clip_def)

lemma assign_row_clipped:
  assumes "assign_row n (map clip raw) = Inr row"
  shows "length row = n \<and> (\<forall>v \<in> set row. 1 \<le> v \<and> v \<le> 20)"
proof (cases "length raw = n")
  case True
  with assms have "row = map clip raw" by (simp add: assign_row_def)
  with True show ?thesis by (auto simp: clip_bounds)
next
  case False
  with assms have one: "length raw = 1" and row: "row = replicate n (hd (map clip raw))"
    by (auto simp: assign_row_def split: if_splits)
  from one obtain x where "raw = [x]" by (cases raw) auto
  with row show ?thesis by (auto simp: clip_bounds)
qed

lemma simulate_draws_rows:
  "simulate_draws sim fm k g = (Inr rs, g') \<Longrightarrow>
     length rs = k \<and>
     (\<forall>row \<in> set rs. length row = nrows fm \<and> (\<forall>v \<in> set row. 1 \<le> v \<and> v \<le> 20))"
proof (induction k arbitrary: g rs)
  case 0
  then show ?case by simp
next
  case (Suc k)
  from Suc.prems obtain perturbed g1 raw row rest where
    "assign_row (nrows fm) (map clip raw) = Inr row"
    and rest: "simulate_draws sim fm k g1 = (Inr rest, g')"
    and rs: "rs = row # rest"
    by (auto split: prod.splits sum.splits)
  with assign_row_clipped Suc.IH [OF rest] show ?case by auto
qed

lemma getitem_columns_nrows: "getitem_columns fr names = Inr fm \<Longrightarrow> nrows fm = nrows fr"
  by (auto simp: getitem_columns_def split: sum.splits)


text \<open>The model run on the concrete inputs.\<close>

lemma fuel_perturbed:
  "perturb_features fuel_sim fuel_frame ([2], [2, 2]) = (Inr fuel_frame_perturbed, ([], []))"
  by (simp add: perturb_features_def perturb_form_def fuel_sim_def fuel_frame_def demo_config_def
      fuel_frame_perturbed_def form_cols_def weather_cols_def strategy_cols_def rng_normal_def
      rng_integers_def replay_def get_col_def set_col_def scale_rows_def shift_rows_def Let_def)

lemma three_selected:
  "getitem_columns three_features (feature_columns fuel_sim) =
     Inr \<lparr>nrows = 3,
          cols = [(''grid_position'', [1, 2, 3]),
                  (''power_ratio'', [15 / 100, 15 / 100, 15 / 100]),
                  (''fuel_flow_ratio'', [1, 1, 1]),
                  (''fuel_efficiency_rating'', [1 / 2, 1 / 2, 1 / 2])]\<rparr>"
  by (simp add: getitem_columns_def three_features_def fuel_sim_def)

lemma three_run:
  assumes "n_arg = None \<or> n_arg = Some 0 \<or> n_arg = Some 2"
  shows "run_predictions fuel_sim three_features n_arg ([1, 2, 3], [0, 1, 2]) =
           (Inr three_accumulator, ([], []))"
proof -
  have n: "resolve_n_sims (config fuel_sim) n_arg = 2"
    using assms by (auto simp: resolve_n_sims_def fuel_sim_def demo_config_def)
  show ?thesis
    apply (simp add: run_predictions_def three_selected n Let_def)
    apply (simp add: fuel_sim_def demo_config_def three_accumulator_def)
    apply (simp add: numeral_2_eq_2 perturb_features_def perturb_form_def
        form_cols_def weather_cols_def strategy_cols_def rng_normal_def rng_integers_def
        replay_def get_col_def set_col_def scale_rows_def shift_rows_def Let_def
        numeral_3_eq_3 assign_row_def clip_def)
    done
qed

section \<open>The scenario transform and the dashboard table\<close>

lemma scenario_transform_result:
  assumes "distinct (map fst ms)" and "\<forall>c \<in> fst ` set ms. map_of (cols fr) c \<noteq> None"
  shows "\<exists>fr'. scenario_transform ms fr = Inr fr' \<and> nrows fr' = nrows fr \<and>
           (\<forall>c. map_of (cols fr') c =
              (case map_of ms c of
                 None \<Rightarrow> map_of (cols fr) c
               | Some m \<Rightarrow> map_option (map (\<lambda>x. x * m)) (map_of (cols fr) c)))"
  using assms
proof (induction ms arbitrary: fr)
  case Nil
  then show ?case by simp
next
  case (Cons cm ms)
  obtain c m where cm: "cm = (c, m)" by (cases cm)
  from Cons.prems cm obtain v where v: "map_of (cols fr) c = Some v" by auto
  let ?fr = "set_col c (map (\<lambda>x. x * m) v) fr"
  have d: "distinct (map fst ms)" and notin: "c \<notin> fst ` set ms" using Cons.prems cm by auto
  have "\<forall>c' \<in> fst ` set ms. map_of (cols ?fr) c' \<noteq> None"
    using Cons.prems(2) by (auto simp: map_of_set_col)
  from Cons.IH [OF d this] obtain fr' where
    fr': "scenario_transform ms ?fr = Inr fr'" "nrows fr' = nrows ?fr"
    and look: "\<And>c'. map_of (cols fr') c' =
              (case map_of ms c' of
                 None \<Rightarrow> map_of (cols ?fr) c'
               | Some m \<Rightarrow> map_option (map (\<lambda>x. x * m)) (map_of (cols ?fr) c'))"
    by blast
  have none: "map_of ms c = None" using notin by (simp add: map_of_eq_None_iff)
  have "scenario_transform (cm # ms) fr = Inr fr'"
    using fr' v by (simp add: cm get_col_def)
  moreover have "nrows fr' = nrows fr" using fr' by (simp add: nrows_set_col)
  moreover have "map_of (cols fr') c' =
              (case map_of (cm # ms) c' of
                 None \<Rightarrow> map_of (cols fr) c'
               | Some m \<Rightarrow> map_option (map (\<lambda>x. x * m)) (map_of (cols fr) c'))" for c'
  proof (cases "c' = c")
    case True
    then show ?thesis using look [of c] none v by (simp add: cm map_of_set_col)
  next
    case False
    then show ?thesis using look [of c'] by (simp add: cm map_of_set_col split: option.splits)
  qed
  ultimately show ?case by blast
qed

text \<open>
  The dashboard table agrees with \<open>future_multipliers\<close> on four of the five ruleset
  columns; its entry for \<open>aero_coeff\<close> is 1.05.
\<close>

lemma dashboard_table_multipliers:
  "map (\<lambda>f. (feature_id f, multiplier f)) (take 5 KEY_REGULATION_FEATURES) =
     [(''power_ratio'', 333 / 100), (''aero_coeff'', 105 / 100), (''weight_ratio'', 962 / 1000),
      (''fuel_flow_ratio'', 75 / 100), (''tire_grip_ratio'', 94 / 100)]"
  by (simp add: KEY_REGULATION_FEATURES_def)

section \<open>Imputation and the split\<close>

lemma select_columns_lookup:
  "select_columns fr cs = Inr sel \<Longrightarrow> c \<in> set cs \<Longrightarrow>
     map_of sel c = map_of (cols fr) c \<and> map_of (cols fr) c \<noteq> None"
  by (induction cs arbitrary: sel) (auto split: option.splits sum.splits)

lemma map_of_map_values:
  "map_of (map (\<lambda>(c, v). (c, f v)) xs) c = map_option f (map_of xs c)"
  by (induction xs) auto

lemma fillna_mean_lookup:
  "map_of (cols (fillna_mean fr)) c = map_option (\<lambda>v. fillna (col_mean v) v) (map_of (cols fr) c)"
  unfolding fillna_mean_def by (simp add: map_of_map_values)

lemma take_rows_lookup:
  "map_of (cols (take_rows idx fr)) c = map_option (\<lambda>v. map (\<lambda>i. v ! i) idx) (map_of (cols fr) c)"
  unfolding take_rows_def by (simp add: map_of_map_values)

lemma train_positions_in_range:
  assumes "set (permutation n) \<subseteq> {..<n}" and "k < length (train_positions permutation n)"
  shows "train_positions permutation n ! k < n"
proof -
  have "train_positions permutation n ! k \<in> set (train_positions permutation n)"
    using assms(2) by simp
  also have "\<dots> \<subseteq> set (permutation n)"
    unfolding train_positions_def by (meson set_take_subset set_drop_subset subset_trans)
  finally show ?thesis using assms(1) by auto
qed

lemma leak_fit_input:
  "train_model_fit_input hold_out_last leak_table [10, 20, 30, 40, 50 :: nat] [''a''] =
     Inr (leak_train_frame, [10, 20, 30, 40])"
  by (simp add: train_model_fit_input_def getitem_columns_def leak_table_def fillna_mean_def
      leak_train_frame_def fillna_def col_mean_def present_def train_test_split_def n_test_of_def Let_def
      train_positions_def test_positions_def hold_out_last_def take_rows_def)

section \<open>The artifact and its reader\<close>

lemma set_update_subset: "set (AList.update k v al) \<subseteq> insert (k, v) (set al)"
  by (induction al) auto

lemma driver_stats_fields: "driver_stats d = Inr st \<Longrightarrow> map fst st = stat_fields"
  by (auto simp: driver_stats_def stat_fields_def split: if_splits)

lemma summarise_loop_fields:
  "summarise_loop p idx ds acc = Inr out \<Longrightarrow>
   \<forall>(d, st) \<in> set acc. map fst st = stat_fields \<Longrightarrow>
   (\<forall>(d, st) \<in> set out. map fst st = stat_fields) \<and> fst ` set out = fst ` set acc \<union> set ds"
proof (induction ds arbitrary: idx acc)
  case Nil
  then show ?case by simp
next
  case (Cons driver ds)
  from Cons.prems(1) obtain distribution st where
    st: "driver_stats distribution = Inr st"
    and rest: "summarise_loop p (Suc idx) ds (AList.update driver st acc) = Inr out"
    by (auto split: sum.splits)
  have "\<forall>(d, st') \<in> set (AList.update driver st acc). map fst st' = stat_fields"
    using set_update_subset [of driver st acc] Cons.prems(2) driver_stats_fields [OF st] by auto
  from Cons.IH [OF rest this] show ?case by (auto simp: dom_update)
qed

lemma summarise_predictions_fields:
  assumes "summarise_predictions p ds = Inr out"
  shows "\<forall>(d, st) \<in> set out. map fst st = stat_fields" and "fst ` set out = set ds"
  using summarise_loop_fields [of p 0 ds "[]" out] assms
  by (simp_all add: summarise_predictions_def)

text \<open>
  The reader takes the second scenario from the key \<open>2026\<close>: a table stored under
  \<open>future\<close> is not read, and the baseline mean is reported as the prediction.
\<close>

lemma reader_takes_2026:
  "future_table race_2026 = demo_future \<and>
   extractTeamPerformance [(''2024_R01'', race_2026)] = [unknown_team (Some 3) (Some 4)]"
  by (simp add: extractTeamPerformance_def add_race_def race_2026_def current_table_def
      future_table_def add_driver_def extractTeamName_def mean_of_def const_stats_def js_or_def
      to_team_performance_def average_def present_def team_id_def to_lower_def is_space_def
      demo_current_def demo_future_def unknown_team_def)

lemma reader_ignores_future:
  "future_table race_future = [] \<and>
   extractTeamPerformance [(''2024_R01'', race_future)] = [unknown_team (Some 3) (Some 3)]"
  by (simp add: extractTeamPerformance_def add_race_def race_future_def current_table_def
      future_table_def add_driver_def extractTeamName_def mean_of_def const_stats_def js_or_def
      to_team_performance_def average_def present_def team_id_def to_lower_def is_space_def
      demo_current_def demo_future_def unknown_team_def)

section \<open>When a run succeeds\<close>

text \<open>
  With every feature column present, the perturbation step never raises; with a
  regressor that returns one prediction per row, neither does the loop.
\<close>

lemma select_columns_total:
  "\<forall>c \<in> set cs. map_of (cols fr) c \<noteq> None \<Longrightarrow> \<exists>sel. select_columns fr cs = Inr sel"
  by (induction cs) auto

lemma set_col_keeps:
  "map_of (cols fr) c' \<noteq> None \<Longrightarrow> map_of (cols (set_col c v fr)) c' \<noteq> None"
  by (simp add: map_of_set_col)

lemma fold_set_col_keeps:
  "map_of (cols fr) c' \<noteq> None \<Longrightarrow>
   map_of (cols (fold (\<lambda>(c, v). set_col c (f v)) sel fr)) c' \<noteq> None"
  by (induction sel arbitrary: fr) (auto simp: map_of_set_col)

lemma perturb_form_total:
  assumes "\<forall>c \<in> set (feature_columns sim). map_of (cols fr) c \<noteq> None"
  shows "\<exists>fr' g'. perturb_form sim fr g = (Inr fr', g') \<and>
           (\<forall>c. map_of (cols fr) c \<noteq> None \<longrightarrow> map_of (cols fr') c \<noteq> None)"
proof (cases "form_cols (feature_columns sim) = []")
  case True
  then show ?thesis by (simp add: perturb_form_def)
next
  case False
  have "\<forall>c \<in> set (form_cols (feature_columns sim)). map_of (cols fr) c \<noteq> None"
    using assms by (simp add: form_cols_def)
  from select_columns_total [OF this] obtain sel where
    "select_columns fr (form_cols (feature_columns sim)) = Inr sel" by blast
  moreover obtain noise g1 where
    "rng_normal (rng_ops sim) 0 (driver_form_sigma (config sim)) (nrows fr) g = (noise, g1)"
    by (cases "rng_normal (rng_ops sim) 0 (driver_form_sigma (config sim)) (nrows fr) g")
  ultimately have "perturb_form sim fr g =
      (Inr (fold (\<lambda>(c, v). set_col c (scale_rows noise v)) sel fr), g1)"
    using False by (simp add: perturb_form_def Let_def)
  then show ?thesis using fold_set_col_keeps [of fr _ "scale_rows noise" sel] by auto
qed

lemma perturb_weather_total:
  "\<forall>c \<in> set cs. map_of (cols fr) c \<noteq> None \<Longrightarrow>
   \<exists>fr' g'. perturb_weather sim cs fr g = (Inr fr', g') \<and>
     (\<forall>c. map_of (cols fr) c \<noteq> None \<longrightarrow> map_of (cols fr') c \<noteq> None)"
proof (induction cs arbitrary: fr g)
  case Nil
  then show ?case by simp
next
  case (Cons column cs)
  obtain noise g1 where n: "rng_normal (rng_ops sim) 0 (weather_sigma (config sim)) (nrows fr) g = (noise, g1)"
    by (cases "rng_normal (rng_ops sim) 0 (weather_sigma (config sim)) (nrows fr) g")
  from Cons.prems obtain v where v: "map_of (cols fr) column = Some v" by auto
  let ?fr = "set_col column (scale_rows noise v) fr"
  have keep: "map_of (cols fr) c \<noteq> None \<Longrightarrow> map_of (cols ?fr) c \<noteq> None" for c
    by (rule set_col_keeps)
  then have "\<forall>c \<in> set cs. map_of (cols ?fr) c \<noteq> None" using Cons.prems by simp
  from Cons.IH [OF this, of g1] keep show ?case
    by (auto simp: n v get_col_def)
qed

lemma perturb_strategy_total:
  "\<forall>c \<in> set cs. map_of (cols fr) c \<noteq> None \<Longrightarrow>
   \<exists>fr' g'. perturb_strategy sim cs fr g = (Inr fr', g') \<and>
     (\<forall>c. map_of (cols fr) c \<noteq> None \<longrightarrow> map_of (cols fr') c \<noteq> None)"
proof (induction cs arbitrary: fr g)
  case Nil
  then show ?case by simp
next
  case (Cons column cs)
  obtain steps g1 where n: "rng_integers (rng_ops sim) (- 1) 2 (nrows fr) g = (steps, g1)"
    by (cases "rng_integers (rng_ops sim) (- 1) 2 (nrows fr) g")
  from Cons.prems obtain v where v: "map_of (cols fr) column = Some v" by auto
  let ?delta = "map (\<lambda>k. real_of_int k * strategy_delta (config sim)) steps"
  let ?fr = "set_col column (shift_rows ?delta v) fr"
  have keep: "map_of (cols fr) c \<noteq> None \<Longrightarrow> map_of (cols ?fr) c \<noteq> None" for c
    by (rule set_col_keeps)
  then have "\<forall>c \<in> set cs. map_of (cols ?fr) c \<noteq> None" using Cons.prems by simp
  from Cons.IH [OF this, of g1] keep show ?case
    by (auto simp: n v get_col_def Let_def)
qed

lemma perturb_features_total:
  assumes "\<forall>c \<in> set (feature_columns sim). map_of (cols fr) c \<noteq> None"
  shows "\<exists>fr' g'. perturb_features sim fr g = (Inr fr', g')"
proof -
  from perturb_form_total [OF assms, of g] obtain fr1 g1 where
    s1: "perturb_form sim fr g = (Inr fr1, g1)"
    and k1: "\<forall>c. map_of (cols fr) c \<noteq> None \<longrightarrow> map_of (cols fr1) c \<noteq> None" by blast
  have "\<forall>c \<in> set (weather_cols (feature_columns sim)). map_of (cols fr1) c \<noteq> None"
    using assms k1 by (simp add: weather_cols_def)
  from perturb_weather_total [OF this, of sim g1] obtain fr2 g2 where
    s2: "perturb_weather sim (weather_cols (feature_columns sim)) fr1 g1 = (Inr fr2, g2)"
    and k2: "\<forall>c. map_of (cols fr1) c \<noteq> None \<longrightarrow> map_of (cols fr2) c \<noteq> None" by blast
  have "\<forall>c \<in> set (strategy_cols (feature_columns sim)). map_of (cols fr2) c \<noteq> None"
    using assms k1 k2 by (simp add: strategy_cols_def)
  from perturb_strategy_total [OF this, of sim g2] obtain fr3 g3 where
    s3: "perturb_strategy sim (strategy_cols (feature_columns sim)) fr2 g2 = (Inr fr3, g3)"
    by blast
  show ?thesis by (simp add: perturb_features_def s1 s2 s3)
qed

lemma simulate_draws_total:
  assumes cols: "\<forall>c \<in> set (feature_columns sim). map_of (cols fm) c \<noteq> None"
    and model: "\<forall>fr. nrows fr = nrows fm \<longrightarrow>
                  (\<exists>ys. model_predict sim fr = Inr ys \<and> length ys = nrows fm)"
  shows "\<exists>rs g'. simulate_draws sim fm k g = (Inr rs, g')"
proof (induction k arbitrary: g)
  case 0
  show ?case by simp
next
  case (Suc k)
  from perturb_features_total [OF cols, of g] obtain perturbed g1 where
    p: "perturb_features sim fm g = (Inr perturbed, g1)" by blast
  from perturb_features_frame(1) [OF p] model obtain ys where
    ys: "model_predict sim perturbed = Inr ys" "length ys = nrows fm" by blast
  from Suc [of g1] obtain rest g2 where r: "simulate_draws sim fm k g1 = (Inr rest, g2)" by blast
  show ?case by (simp add: p ys r assign_row_def)
qed

lemma run_predictions_total:
  assumes cols: "\<forall>c \<in> set (feature_columns sim). map_of (cols features) c \<noteq> None"
    and model: "\<forall>fr. nrows fr = nrows features \<longrightarrow>
                  (\<exists>ys. model_predict sim fr = Inr ys \<and> length ys = nrows features)"
    and n: "0 \<le> resolve_n_sims (config sim) n_arg"
  shows "\<exists>p g'. run_predictions sim features n_arg g = (Inr p, g')"
proof -
  from select_columns_total [OF cols] obtain sel where
    sel: "select_columns features (feature_columns sim) = Inr sel" by blast
  let ?fm = "\<lparr>nrows = nrows features, cols = sel\<rparr>"
  have c: "\<forall>c \<in> set (feature_columns sim). map_of (cols ?fm) c \<noteq> None"
    using select_columns_lookup [OF sel] by simp
  have m: "\<forall>fr. nrows fr = nrows ?fm \<longrightarrow>
                  (\<exists>ys. model_predict sim fr = Inr ys \<and> length ys = nrows ?fm)"
    using model by simp
  from simulate_draws_total [OF c m] obtain rs g' where
    "simulate_draws sim ?fm (nat (resolve_n_sims (config sim) n_arg)) g = (Inr rs, g')" by blast
  then show ?thesis using n by (simp add: run_predictions_def getitem_columns_def sel Let_def)
qed

section \<open>The claims\<close>

text \<open>
  C1. For every entity, \<open>top3_probability\<close> (respectively \<open>top5_probability\<close>) is the
  fraction of the draws in which that entity's own stored value is at most 3
  (respectively 5): the number of rows of the accumulator whose entry in the entity's
  column passes the threshold, over the number of rows. No other column enters. The
  entity is the one at position \<open>idx\<close> of the driver list (its last occurrence, should
  the name repeat), with at least one draw and a column for every driver.
\<close>

theorem top_k_probability_is_per_entity_fraction:
  assumes "rows p \<noteq> []" and "length drivers \<le> ncols p" and "idx < length drivers"
    and "drivers ! idx \<notin> set (drop (Suc idx) drivers)"
  shows "\<exists>out st. summarise_predictions p drivers = Inr out \<and>
           map_of out (drivers ! idx) = Some st \<and>
           map_of st ''top3_probability'' =
             Some (real (length (filter (\<lambda>r. r ! idx \<le> 3) (rows p))) / real (length (rows p))) \<and>
           map_of st ''top5_probability'' =
             Some (real (length (filter (\<lambda>r. r ! idx \<le> 5) (rows p))) / real (length (rows p)))"
proof -
  from summarise_predictions_entity [OF assms] obtain out st where
    out: "summarise_predictions p drivers = Inr out" "map_of out (drivers ! idx) = Some st"
    and st: "driver_stats (entity_column p idx) = Inr st" by blast
  have ne: "entity_column p idx \<noteq> []" using assms(1) by (simp add: entity_column_def)
  have f: "length (filter (\<lambda>x. x \<le> k) (entity_column p idx)) = length (filter (\<lambda>r. r ! idx \<le> k) (rows p))" for k
    by (simp add: entity_column_def filter_map o_def)
  have l: "length (entity_column p idx) = length (rows p)" by (simp add: entity_column_def)
  have "map_of st ''top3_probability'' = Some (frac_le (entity_column p idx) 3)"
    and "map_of st ''top5_probability'' = Some (frac_le (entity_column p idx) 5)"
    using st ne by (auto simp: driver_stats_def)
  then show ?thesis using out by (simp add: frac_le_def f l)
qed

theorem top_k_probability_witness:
  "\<exists>out st. summarise_predictions demo_accumulator [''A'', ''B''] = Inr out \<and>
     map_of out ''B'' = Some st \<and>
     map_of st ''top3_probability'' = Some 0 \<and>
     map_of st ''top5_probability'' = Some (3 / 4)"
  using top_k_probability_is_per_entity_fraction [of demo_accumulator "[''A'', ''B'']" 1]
  by (simp add: demo_accumulator_def)

text \<open>
  C2, as amended. Every value stored in the accumulator lies in the closed interval
  \<open>[1, 20]\<close>, whatever the number of entities; every row has one value per row of
  the event's feature subset.
\<close>

theorem accumulator_values_clipped_to_1_20:
  assumes "run_predictions sim features n_arg g = (Inr p, g')"
  shows "ncols p = nrows features \<and>
         (\<forall>row \<in> set (rows p). length row = ncols p \<and> (\<forall>v \<in> set row. 1 \<le> v \<and> v \<le> 20))"
proof -
  from assms obtain fm rs where
    fm: "getitem_columns features (feature_columns sim) = Inr fm"
    and rs: "simulate_draws sim fm (nat (resolve_n_sims (config sim) n_arg)) g = (Inr rs, g')"
    and p: "p = \<lparr>ncols = nrows fm, rows = rs\<rparr>"
    by (auto simp: run_predictions_def Let_def split: sum.splits if_splits prod.splits)
  from simulate_draws_rows [OF rs] getitem_columns_nrows [OF fm] p show ?thesis by simp
qed

theorem accumulator_values_clipped_witness:
  "run_predictions fuel_sim three_features (Some 2) ([1, 2, 3], [0, 1, 2]) =
     (Inr three_accumulator, ([], [])) \<and>
   ncols three_accumulator = nrows three_features \<and>
   list_all (\<lambda>row. length row = ncols three_accumulator \<and> list_all (\<lambda>v. 1 \<le> v \<and> v \<le> 20) row)
     (rows three_accumulator)"
  using accumulator_values_clipped_to_1_20 [OF three_run [of "Some 2"]] three_run [of "Some 2"]
  by (simp add: list_all_iff)

text \<open>
  C2 as stated fails: for an event of three entities the stored value 15 exceeds the
  number of entities.
\<close>

theorem accumulator_exceeds_entity_count_counterexample:
  "fst (run_predictions fuel_sim three_features (Some 2) ([1, 2, 3], [0, 1, 2])) =
     Inr \<lparr>ncols = 3, rows = [[15, 15, 15], [15, 15, 15]]\<rparr> \<and>
   nrows three_features = 3 \<and> \<not> (15 :: real) \<le> real (nrows three_features)"
  by (simp add: three_run) (simp add: three_accumulator_def three_features_def)

text \<open>
  C3, as amended. The perturbation step keeps the number of rows and changes no
  column whose name carries none of the markers \<open>pos\<close>, \<open>grid\<close>, \<open>rain\<close>, \<open>temp\<close>,
  \<open>wind\<close>, \<open>pit\<close>, \<open>fuel\<close>, \<open>compound\<close>, and no column outside the feature list. Of
  the catalogue these are the track, derived and context columns, \<open>points_last5\<close>,
  \<open>dnf_count_last5\<close>, and the ruleset columns \<open>power_ratio\<close>, \<open>aero_coeff\<close>,
  \<open>weight_ratio\<close> and \<open>tire_grip_ratio\<close>. With distinct feature names, a feature
  column with a strategy marker and neither a form nor a weather marker receives the
  strategy step: its values plus, row by row, the generator's \<open>integers(-1, 2)\<close> draw
  times \<open>strategy_delta\<close>. \<open>fuel_efficiency_rating\<close> is such a column.
\<close>

theorem perturbation_leaves_unmarked_columns:
  assumes "perturb_features sim fr g = (Inr fr', g')"
  shows "nrows fr' = nrows fr \<and>
         (\<forall>c. \<not> has_marker c \<or> c \<notin> set (feature_columns sim) \<longrightarrow>
              map_of (cols fr') c = map_of (cols fr) c) \<and>
         (\<forall>c \<in> set unperturbed_catalogue. map_of (cols fr') c = map_of (cols fr) c) \<and>
         (distinct (feature_columns sim) \<longrightarrow>
            (\<forall>c \<in> set (strategy_cols (feature_columns sim)).
               c \<notin> set (form_cols (feature_columns sim)) \<and>
               c \<notin> set (weather_cols (feature_columns sim)) \<longrightarrow>
               (\<exists>gc v. map_of (cols fr) c = Some v \<and>
                  map_of (cols fr') c = Some (shift_rows (strategy_step sim (nrows fr) gc) v)))) \<and>
         (distinct (feature_columns sim) \<and>
          ''fuel_efficiency_rating'' \<in> set (feature_columns sim) \<longrightarrow>
            (\<exists>gc v. map_of (cols fr) ''fuel_efficiency_rating'' = Some v \<and>
               map_of (cols fr') ''fuel_efficiency_rating'' =
                 Some (shift_rows (strategy_step sim (nrows fr) gc) v)))"
proof -
  have a: "map_of (cols fr') c = map_of (cols fr) c"
    if "\<not> has_marker c \<or> c \<notin> set (feature_columns sim)" for c
    using that perturb_features_frame(2) [OF assms, of c]
      no_marker_not_selected [of c "feature_columns sim"]
      not_feature_not_selected [of c "feature_columns sim"]
    by blast
  have b: "map_of (cols fr') c = map_of (cols fr) c" if "c \<in> set unperturbed_catalogue" for c
    using a unperturbed_catalogue_no_marker [OF that] by blast
  have s: "\<exists>gc v. map_of (cols fr) c = Some v \<and>
                  map_of (cols fr') c = Some (shift_rows (strategy_step sim (nrows fr) gc) v)"
    if "distinct (feature_columns sim)" "c \<in> set (strategy_cols (feature_columns sim))"
      "c \<notin> set (form_cols (feature_columns sim))" "c \<notin> set (weather_cols (feature_columns sim))"
    for c
    using perturb_features_strategy_step [OF assms that] .
  have e: "\<exists>gc v. map_of (cols fr) ''fuel_efficiency_rating'' = Some v \<and>
               map_of (cols fr') ''fuel_efficiency_rating'' =
                 Some (shift_rows (strategy_step sim (nrows fr) gc) v)"
    if "distinct (feature_columns sim)" "''fuel_efficiency_rating'' \<in> set (feature_columns sim)"
    using s [OF that(1) fuel_efficiency_rating_markers [OF that(2)]] .
  show ?thesis using perturb_features_frame(1) [OF assms] a b s e by blast
qed

theorem perturbation_leaves_unmarked_columns_witness:
  "perturb_features fuel_sim fuel_frame ([2], [2, 2]) = (Inr fuel_frame_perturbed, ([], [])) \<and>
   nrows fuel_frame_perturbed = nrows fuel_frame \<and>
   map_of (cols fuel_frame_perturbed) ''power_ratio'' = map_of (cols fuel_frame) ''power_ratio'' \<and>
   (\<exists>gc v. map_of (cols fuel_frame) ''fuel_efficiency_rating'' = Some v \<and>
      map_of (cols fuel_frame_perturbed) ''fuel_efficiency_rating'' =
        Some (shift_rows (strategy_step fuel_sim (nrows fuel_frame) gc) v))"
proof -
  have d: "distinct (feature_columns fuel_sim)"
    "''fuel_efficiency_rating'' \<in> set (feature_columns fuel_sim)"
    by (simp_all add: fuel_sim_def)
  from perturbation_leaves_unmarked_columns [OF fuel_perturbed] d
  have "nrows fuel_frame_perturbed = nrows fuel_frame"
    and "\<forall>c \<in> set unperturbed_catalogue.
           map_of (cols fuel_frame_perturbed) c = map_of (cols fuel_frame) c"
    and "\<exists>gc v. map_of (cols fuel_frame) ''fuel_efficiency_rating'' = Some v \<and>
      map_of (cols fuel_frame_perturbed) ''fuel_efficiency_rating'' =
        Some (shift_rows (strategy_step fuel_sim (nrows fuel_frame) gc) v)"
    by blast+
  then show ?thesis using fuel_perturbed by (simp add: unperturbed_catalogue_def)
qed

text \<open>
  C3 as stated fails: \<open>fuel_flow_ratio\<close> and \<open>fuel_efficiency_rating\<close> both carry the
  marker \<open>fuel\<close> and receive the strategy step (here \<open>+1\<close> times \<open>strategy_delta\<close>).
\<close>

theorem perturbation_touches_fuel_columns_counterexample:
  "fst (perturb_features fuel_sim fuel_frame ([2], [2, 2])) = Inr fuel_frame_perturbed \<and>
   map_of (cols fuel_frame) ''fuel_flow_ratio'' = Some [1] \<and>
   map_of (cols fuel_frame_perturbed) ''fuel_flow_ratio'' = Some [11 / 10] \<and>
   map_of (cols fuel_frame) ''fuel_efficiency_rating'' = Some [1 / 2] \<and>
   map_of (cols fuel_frame_perturbed) ''fuel_efficiency_rating'' = Some [6 / 10]"
  by (simp add: fuel_perturbed) (simp add: fuel_frame_def fuel_frame_perturbed_def)

text \<open>
  C4. Applying the future scenario to feature rows that carry the five ruleset
  columns multiplies \<open>power_ratio\<close> by 3.33, \<open>aero_coeff\<close> by 0.70, \<open>weight_ratio\<close> by
  0.962, \<open>fuel_flow_ratio\<close> by 0.75 and \<open>tire_grip_ratio\<close> by 0.94, and changes no
  other column; \<open>power_ratio = 0.15\<close> becomes \<open>0.4995\<close>.
\<close>

theorem future_scenario_scales_ruleset_columns:
  assumes "\<forall>c \<in> set ruleset_columns. map_of (cols fr) c \<noteq> None"
  shows "\<exists>fr'. scenario_transform future_multipliers fr = Inr fr' \<and>
           map_of (cols fr') ''power_ratio'' =
             map_option (map (\<lambda>x. x * (333 / 100))) (map_of (cols fr) ''power_ratio'') \<and>
           map_of (cols fr') ''aero_coeff'' =
             map_option (map (\<lambda>x. x * (70 / 100))) (map_of (cols fr) ''aero_coeff'') \<and>
           map_of (cols fr') ''weight_ratio'' =
             map_option (map (\<lambda>x. x * (962 / 1000))) (map_of (cols fr) ''weight_ratio'') \<and>
           map_of (cols fr') ''fuel_flow_ratio'' =
             map_option (map (\<lambda>x. x * (75 / 100))) (map_of (cols fr) ''fuel_flow_ratio'') \<and>
           map_of (cols fr') ''tire_grip_ratio'' =
             map_option (map (\<lambda>x. x * (94 / 100))) (map_of (cols fr) ''tire_grip_ratio'') \<and>
           (\<forall>c. c \<notin> set ruleset_columns \<longrightarrow> map_of (cols fr') c = map_of (cols fr) c) \<and>
           (15 / 100 :: real) * (333 / 100) = 4995 / 10000"
proof -
  have d: "distinct (map fst future_multipliers)" by (simp add: future_multipliers_def)
  have k: "fst ` set future_multipliers = set ruleset_columns"
    by (simp add: future_multipliers_def ruleset_columns_def)
  from scenario_transform_result [OF d, of fr] assms k obtain fr' where
    r: "scenario_transform future_multipliers fr = Inr fr'"
    and look: "\<And>c. map_of (cols fr') c =
              (case map_of future_multipliers c of
                 None \<Rightarrow> map_of (cols fr) c
               | Some m \<Rightarrow> map_option (map (\<lambda>x. x * m)) (map_of (cols fr) c))"
    by auto
  have other: "map_of (cols fr') c = map_of (cols fr) c" if "c \<notin> set ruleset_columns" for c
  proof -
    from that k have "map_of future_multipliers c = None" by (simp add: map_of_eq_None_iff)
    then show ?thesis using look [of c] by simp
  qed
  show ?thesis
    using r other look [of "''power_ratio''"] look [of "''aero_coeff''"] look [of "''weight_ratio''"]
      look [of "''fuel_flow_ratio''"] look [of "''tire_grip_ratio''"]
    by (simp add: future_multipliers_def)
qed

theorem future_scenario_witness:
  "\<exists>fr'. scenario_transform future_multipliers baseline_row = Inr fr' \<and>
     map_of (cols fr') ''power_ratio'' = Some [4995 / 10000] \<and>
     map_of (cols fr') ''aero_coeff'' = Some [70 / 100] \<and>
     map_of (cols fr') ''grid_position'' = Some [4] \<and>
     map_of (cols fr') ''season_year'' = Some [2024]"
proof -
  have h: "\<forall>c \<in> set ruleset_columns. map_of (cols baseline_row) c \<noteq> None"
    by (simp add: baseline_row_def ruleset_columns_def)
  from future_scenario_scales_ruleset_columns [OF h] obtain fr' where
    r: "scenario_transform future_multipliers baseline_row = Inr fr'"
    and p: "map_of (cols fr') ''power_ratio'' =
             map_option (map (\<lambda>x. x * (333 / 100))) (map_of (cols baseline_row) ''power_ratio'')"
    and a: "map_of (cols fr') ''aero_coeff'' =
             map_option (map (\<lambda>x. x * (70 / 100))) (map_of (cols baseline_row) ''aero_coeff'')"
    and other: "\<forall>c. c \<notin> set ruleset_columns \<longrightarrow> map_of (cols fr') c = map_of (cols baseline_row) c"
    by blast
  have "map_of (cols fr') ''grid_position'' = map_of (cols baseline_row) ''grid_position''"
    and "map_of (cols fr') ''season_year'' = map_of (cols baseline_row) ''season_year''"
    using other by (simp_all add: ruleset_columns_def)
  with r p a show ?thesis by (simp add: baseline_row_def)
qed

text \<open>
  C6, as amended. A negative \<open>n_simulations\<close> makes \<open>run\<close> raise before any draw, with
  the generator state untouched (ValueError from allocating the accumulator, or
  KeyError from selecting the feature columns). \<open>n_simulations = 0\<close> is not
  rejected: the call is the same as the call without the argument.
\<close>

theorem negative_draw_count_raises_before_sampling:
  "(n < 0 \<longrightarrow>
      run sim features driver_names (Some n) g =
        (case getitem_columns features (feature_columns sim) of
           Inl e \<Rightarrow> (Inl e, g)
         | Inr feature_matrix \<Rightarrow> (Inl ValueError, g))) \<and>
   run sim features driver_names (Some 0) g = run sim features driver_names None g"
  by (auto simp: run_def run_predictions_def resolve_n_sims_def Let_def split: sum.splits)

theorem negative_draw_count_witness:
  "run fuel_sim three_features [''A'', ''B'', ''C''] (Some (- 1)) ([1, 2, 3], [0, 1, 2]) =
     (Inl ValueError, ([1, 2, 3], [0, 1, 2]))"
  using negative_draw_count_raises_before_sampling
    [of "- 1" fuel_sim three_features "[''A'', ''B'', ''C'']" "([1, 2, 3], [0, 1, 2])"]
  by (simp add: three_selected)

text \<open>
  C6 as stated fails: with \<open>n_simulations = 0\<close> the run does not raise; it fills the
  configured two draws and uses up the generator's samples.
\<close>

theorem zero_draws_runs_default_counterexample:
  "run_predictions fuel_sim three_features (Some 0) ([1, 2, 3], [0, 1, 2]) =
     (Inr three_accumulator, ([], [])) \<and>
   \<not> isl (fst (run fuel_sim three_features [''A'', ''B'', ''C''] (Some 0) ([1, 2, 3], [0, 1, 2]))) \<and>
   snd (run fuel_sim three_features [''A'', ''B'', ''C''] (Some 0) ([1, 2, 3], [0, 1, 2])) = ([], [])"
proof -
  have "rows three_accumulator \<noteq> []" "0 + length [''A'', ''B'', ''C''] \<le> ncols three_accumulator"
    by (simp_all add: three_accumulator_def)
  from summarise_loop_result [OF this, of "[]"] obtain out where
    "summarise_predictions three_accumulator [''A'', ''B'', ''C''] = Inr out"
    unfolding summarise_predictions_def by blast
  then show ?thesis by (simp add: run_def three_run)
qed

text \<open>
  C8, as amended. During fit, every missing value of a feature column is imputed with
  that column's mean over all rows of the feature table handed to \<open>train_model\<close>:
  the imputation precedes the split, so the rows of the holdout fold contribute to
  the value that the training rows receive. Present values are kept. (The table is
  well formed and the shuffle only yields row positions of the table.)
\<close>

theorem imputation_uses_whole_column_mean:
  assumes ok: "train_model_fit_input permutation features target fcs = Inr (X_train, y_train)"
    and wf: "\<forall>(c, v) \<in> set (cols features). length v = nrows features"
    and perm: "set (permutation (nrows features)) \<subseteq> {..<nrows features}"
    and c: "c \<in> set fcs"
  shows "\<exists>v xs. map_of (cols features) c = Some v \<and> map_of (cols X_train) c = Some xs \<and>
           length xs = length (train_positions permutation (nrows features)) \<and>
           (\<forall>k < length xs.
              xs ! k = (case v ! (train_positions permutation (nrows features) ! k) of
                          None \<Rightarrow> col_mean v
                        | Some x \<Rightarrow> Some x))"
proof -
  let ?n = "nrows features"
  let ?train = "train_positions permutation ?n"
  from ok obtain sel where sel: "select_columns features fcs = Inr sel"
    and split: "train_test_split permutation (fillna_mean \<lparr>nrows = ?n, cols = sel\<rparr>) target \<noteq> Inl ValueError"
    and X: "X_train = take_rows ?train (fillna_mean \<lparr>nrows = ?n, cols = sel\<rparr>)"
    by (auto simp: train_model_fit_input_def getitem_columns_def train_test_split_def Let_def
        fillna_mean_def split: sum.splits if_splits)
  from select_columns_lookup [OF sel c] obtain v where
    v: "map_of (cols features) c = Some v" "map_of sel c = Some v" by auto
  from v(1) wf have len: "length v = ?n" by (auto dest: map_of_SomeD)
  let ?xs = "map (\<lambda>i. fillna (col_mean v) v ! i) ?train"
  have look: "map_of (cols X_train) c = Some ?xs"
    unfolding X take_rows_lookup fillna_mean_lookup by (simp add: v(2))
  have cell: "?xs ! k = (case v ! (?train ! k) of None \<Rightarrow> col_mean v | Some x \<Rightarrow> Some x)"
    if "k < length ?xs" for k
  proof -
    from that have k: "k < length ?train" by simp
    from train_positions_in_range [OF perm k] len have "?train ! k < length v" by simp
    then show ?thesis using k by (simp add: fillna_def)
  qed
  show ?thesis using v(1) look cell by auto
qed

theorem imputation_witness:
  "\<exists>xs. map_of (cols leak_train_frame) ''a'' = Some xs \<and>
     xs ! 0 = col_mean [None, Some 1, Some 2, Some 3, Some 9] \<and>
     col_mean [None, Some 1, Some 2, Some 3, Some 9] = Some (15 / 4)"
proof -
  have wf: "\<forall>(c, v) \<in> set (cols leak_table). length v = nrows leak_table"
    by (simp add: leak_table_def)
  have perm: "set (hold_out_last (nrows leak_table)) \<subseteq> {..<nrows leak_table}"
    by (simp add: hold_out_last_def leak_table_def)
  have tp: "train_positions hold_out_last (nrows leak_table) = [0, 1, 2, 3]"
    by (simp add: train_positions_def hold_out_last_def leak_table_def n_test_of_def)
  from imputation_uses_whole_column_mean [OF leak_fit_input wf perm, of "''a''"]
  obtain v xs where v: "map_of (cols leak_table) ''a'' = Some v"
    and xs: "map_of (cols leak_train_frame) ''a'' = Some xs"
    and len: "length xs = length (train_positions hold_out_last (nrows leak_table))"
    and cell: "\<forall>k < length xs.
              xs ! k = (case v ! (train_positions hold_out_last (nrows leak_table) ! k) of
                          None \<Rightarrow> col_mean v
                        | Some x \<Rightarrow> Some x)"
    by auto
  from v have v': "v = [None, Some 1, Some 2, Some 3, Some 9]" by (simp add: leak_table_def)
  from cell len tp have "xs ! 0 = (case v ! 0 of None \<Rightarrow> col_mean v | Some x \<Rightarrow> Some x)"
    by auto
  then have "xs ! 0 = col_mean [None, Some 1, Some 2, Some 3, Some 9]" by (simp add: v')
  moreover have "col_mean [None, Some 1, Some 2, Some 3, Some 9] = Some (15 / 4)"
    by (simp add: col_mean_def present_def)
  ultimately show ?thesis using xs by blast
qed

text \<open>
  C8 as stated fails: with the last row held out, the missing value of the first
  training row is filled with 15/4, the mean of 1, 2, 3 and the held-out 9, while the
  mean over the training fold alone is 2.
\<close>

theorem imputation_leaks_holdout_counterexample:
  "train_model_fit_input hold_out_last leak_table [10, 20, 30, 40, 50 :: nat] [''a''] =
     Inr (leak_train_frame, [10, 20, 30, 40]) \<and>
   map_of (cols leak_train_frame) ''a'' = Some [Some (15 / 4), Some 1, Some 2, Some 3] \<and>
   train_positions hold_out_last 5 = [0, 1, 2, 3] \<and>
   train_fold_mean [0, 1, 2, 3] [None, Some 1, Some 2, Some 3, Some 9] = Some 2"
  by (simp add: leak_fit_input)
     (simp add: train_positions_def hold_out_last_def n_test_of_def train_fold_mean_def
        col_mean_def present_def leak_train_frame_def)

text \<open>
  C9. For a fixed accumulator with at least one draw and every entity, the
  statistics satisfy \<open>min \<le> percentile_5 \<le> median \<le> percentile_95 \<le> max\<close> and
  \<open>0 \<le> top3_probability \<le> top5_probability \<le> 1\<close> (floats read as reals).
\<close>

theorem aggregation_consistency:
  assumes "rows p \<noteq> []" and "length drivers \<le> ncols p" and "idx < length drivers"
    and "drivers ! idx \<notin> set (drop (Suc idx) drivers)"
  shows "\<exists>out st mn p5 med p95 mx t3 t5.
           summarise_predictions p drivers = Inr out \<and>
           map_of out (drivers ! idx) = Some st \<and>
           map_of st ''min'' = Some mn \<and> map_of st ''percentile_5'' = Some p5 \<and>
           map_of st ''median'' = Some med \<and> map_of st ''percentile_95'' = Some p95 \<and>
           map_of st ''max'' = Some mx \<and>
           map_of st ''top3_probability'' = Some t3 \<and> map_of st ''top5_probability'' = Some t5 \<and>
           mn \<le> p5 \<and> p5 \<le> med \<and> med \<le> p95 \<and> p95 \<le> mx \<and>
           0 \<le> t3 \<and> t3 \<le> t5 \<and> t5 \<le> 1"
proof -
  from summarise_predictions_entity [OF assms] obtain out st where
    out: "summarise_predictions p drivers = Inr out" "map_of out (drivers ! idx) = Some st"
    and st: "driver_stats (entity_column p idx) = Inr st" by blast
  let ?d = "entity_column p idx"
  have ne: "?d \<noteq> []" using assms(1) by (simp add: entity_column_def)
  have fields: "map_of st ''min'' = Some (min_np ?d)"
    "map_of st ''percentile_5'' = Some (percentile_np ?d 5)"
    "map_of st ''median'' = Some (median_np ?d)"
    "map_of st ''percentile_95'' = Some (percentile_np ?d 95)"
    "map_of st ''max'' = Some (max_np ?d)"
    "map_of st ''top3_probability'' = Some (frac_le ?d 3)"
    "map_of st ''top5_probability'' = Some (frac_le ?d 5)"
    using st ne by (auto simp: driver_stats_def)
  show ?thesis
    using out fields order_statistics_chain [OF ne] frac_le_bounds [of 3 5 ?d] by simp
qed

theorem aggregation_consistency_witness:
  "\<exists>out st mn p5 med p95 mx t3 t5.
     summarise_predictions demo_accumulator [''A'', ''B''] = Inr out \<and>
     map_of out ''A'' = Some st \<and>
     map_of st ''min'' = Some mn \<and> map_of st ''percentile_5'' = Some p5 \<and>
     map_of st ''median'' = Some med \<and> map_of st ''percentile_95'' = Some p95 \<and>
     map_of st ''max'' = Some mx \<and>
     map_of st ''top3_probability'' = Some t3 \<and> map_of st ''top5_probability'' = Some t5 \<and>
     mn \<le> p5 \<and> p5 \<le> med \<and> med \<le> p95 \<and> p95 \<le> mx \<and>
     0 \<le> t3 \<and> t3 \<le> t5 \<and> t5 \<le> 1"
  using aggregation_consistency [of demo_accumulator "[''A'', ''B'']" 0]
  by (simp add: demo_accumulator_def)



end
